theory Spec2Isabelle
  imports Complex_Main
begin

section \<open>Python values, errors and arithmetic helpers\<close>

text \<open>
  The engine computes on Python floats and numpy arrays of floats.  Floats are modelled
  as exact reals, so rounding errors of the binary representation, infinities and NaN
  are outside this development (so is the \<open>OverflowError\<close> of \<open>10 ** x\<close> for a rating
  gap beyond the float range); decimal rounding (\<open>round(x, n)\<close>) is part of it.
  Exceptions are values of \<open>py_error\<close>; a function that can raise returns
  \<open>py_error + 'a\<close>.  \<open>ClassifierError\<close> stands for any exception raised inside the
  fitted model or the scaler.
\<close>

datatype py_error = ZeroDivisionError | IndexError | AttributeError | ClassifierError

text \<open>\<open>a or b\<close> on floats: \<open>0.0\<close> is the only falsy real.\<close>

definition py_or :: "real \<Rightarrow> real \<Rightarrow> real" where
  "py_or a b = (if a = 0 then b else a)"

text \<open>\<open>a / b\<close> on Python floats raises \<open>ZeroDivisionError\<close> for a zero divisor.\<close>

definition py_div :: "real \<Rightarrow> real \<Rightarrow> py_error + real" where
  "py_div a b = (if b = 0 then Inl ZeroDivisionError else Inr (a / b))"

text \<open>
  \<open>round(x, n)\<close>: Python rounds to the nearest multiple of \<open>10^-n\<close> and a tie goes to
  the even neighbour.
\<close>

definition round_half_even :: "real \<Rightarrow> int" where
  "round_half_even x =
     (let f = \<lfloor>x\<rfloor>; d = x - of_int f in
      if d < 1 / 2 then f
      else if 1 / 2 < d then f + 1
      else if even f then f else f + 1)"

definition py_round :: "real \<Rightarrow> nat \<Rightarrow> real" where
  "py_round x n = of_int (round_half_even (x * 10 ^ n)) / 10 ^ n"

text \<open>\<open>np.clip(x, lo, hi)\<close> is \<open>minimum(maximum(x, lo), hi)\<close>.\<close>

definition clip :: "real \<Rightarrow> real \<Rightarrow> real \<Rightarrow> real" where
  "clip x lo hi = min (max x lo) hi"

text \<open>
  \<open>max(items, key=k)\<close> keeps the first item whose key is maximal: a later item
  replaces the running best only when its key is strictly greater.
\<close>

fun py_max_key :: "('a \<Rightarrow> real) \<Rightarrow> 'a \<Rightarrow> 'a list \<Rightarrow> 'a" where
  "py_max_key key best [] = best"
| "py_max_key key best (x # xs) = py_max_key key (if key best < key x then x else best) xs"

section \<open>Entities (entities/base.py, analyzers/poisson_elo.py)\<close>

text \<open>
  The records carry the fields the modelled functions read.  \<open>WeatherData\<close> and
  \<open>TeamStats\<close> have further descriptive fields (names, textual notes, counters) that
  no function below touches.
\<close>

record WeatherData =
  impact_score :: real

record TeamStats =
  elo :: real
  form_score :: real
  avg_goals_scored :: real
  avg_goals_conceded :: real

text \<open>
  The head-to-head dictionary; a field is \<open>None\<close> when the key is absent, and every
  read goes through \<open>dict.get\<close> with a default.
\<close>

record H2H =
  matches :: "real option"
  home_win_pct :: "real option"

definition dict_get :: "'a option \<Rightarrow> 'a \<Rightarrow> 'a" where
  "dict_get v d = (case v of None \<Rightarrow> d | Some x \<Rightarrow> x)"

record PoissonResult =
  home_win :: real
  draw :: real
  away_win :: real
  lambda_h :: real
  lambda_a :: real
  total_exp :: real
  both_score :: real
  over_1_5 :: real
  over_2_5 :: real
  over_3_5 :: real

text \<open>The properties \<open>best_outcome\<close> and \<open>best_prob\<close> of \<open>PoissonResult\<close>.\<close>

definition best_outcome :: "PoissonResult \<Rightarrow> string" where
  "best_outcome r =
     fst (py_max_key snd (''home_win'', home_win r)
            [(''draw'', draw r), (''away_win'', away_win r)])"

definition best_prob :: "PoissonResult \<Rightarrow> real" where
  "best_prob r = max (home_win r) (max (draw r) (away_win r))"

text \<open>The probability stored under an outcome name.\<close>

definition outcome_prob :: "PoissonResult \<Rightarrow> string \<Rightarrow> real" where
  "outcome_prob r name =
     (if name = ''home_win'' then home_win r
      else if name = ''draw'' then draw r
      else away_win r)"

section \<open>Scoreline matrices (analyzers/poisson_elo.py)\<close>

definition LEAGUE_AVG_HOME :: real where
  "LEAGUE_AVG_HOME = 3 / 2"

definition LEAGUE_AVG_AWAY :: real where
  "LEAGUE_AVG_AWAY = 23 / 20"

definition HOME_FIELD_K :: real where
  "HOME_FIELD_K = 11 / 10"

definition MAX_GOALS :: nat where
  "MAX_GOALS = 10"

text \<open>
  \<open>_pmf_array\<close>: the loop fills \<open>log_fact[i] = log_fact[i-1] + log(i)\<close>, and the array
  is \<open>exp(k * log(lam) - lam - log_fact)\<close> for \<open>k = 0 .. max_k\<close>.
\<close>

fun log_fact :: "nat \<Rightarrow> real" where
  "log_fact 0 = 0"
| "log_fact (Suc i) = log_fact i + ln (real (Suc i))"

definition pmf_array :: "real \<Rightarrow> nat \<Rightarrow> real list" where
  "pmf_array lam max_k =
     map (\<lambda>k. exp (real k * ln (max lam (1 / 10 ^ 9)) - max lam (1 / 10 ^ 9) - log_fact k))
       [0..<max_k + 1]"

text \<open>A matrix is a list of rows; \<open>np.outer\<close> builds the product table.\<close>

definition outer :: "real list \<Rightarrow> real list \<Rightarrow> real list list" where
  "outer u v = map (\<lambda>a. map (\<lambda>b. a * b) v) u"

definition matrix_sum :: "real list list \<Rightarrow> real" where
  "matrix_sum m = sum_list (map sum_list m)"

text \<open>The sum of the cells \<open>(i, j)\<close> selected by a mask (\<open>np.tril\<close>, \<open>np.triu\<close>, a boolean index).\<close>

definition masked_sum :: "(nat \<Rightarrow> nat \<Rightarrow> bool) \<Rightarrow> real list list \<Rightarrow> real" where
  "masked_sum keep m =
     (\<Sum>i\<leftarrow>[0..<length m]. \<Sum>j\<leftarrow>[0..<length (m ! i)]. if keep i j then m ! i ! j else 0)"

definition diag_sum :: "real list list \<Rightarrow> real" where
  "diag_sum m = (\<Sum>i\<leftarrow>[0..<length m]. m ! i ! i)"

definition is_square :: "real list list \<Rightarrow> bool" where
  "is_square m = list_all (\<lambda>row. length row = length m) m"

definition calc_over :: "real list list \<Rightarrow> real \<Rightarrow> real" where
  "calc_over matrix threshold =
     clip (masked_sum (\<lambda>i j. threshold < real (i + j)) matrix) 0 1"

definition calc_both_score :: "real list list \<Rightarrow> real" where
  "calc_both_score matrix =
     (let p_home_0 = sum_list (matrix ! 0);
          p_away_0 = (\<Sum>row\<leftarrow>matrix. row ! 0);
          p_both_0 = matrix ! 0 ! 0
      in max 0 (1 - p_home_0 - p_away_0 + p_both_0))"

text \<open>
  The outcome aggregation is written twice in the source, with the same statements: in
  \<open>calculate_poisson\<close> on the raw matrix and in \<open>_apply_dc_correction\<close> on the corrected
  one.  The diagonal is the draw, the strict lower triangle the home win, the strict
  upper triangle the away win; the three are divided by \<open>p_home + p_draw + p_away or 1.0\<close>
  and rounded to four decimals.
\<close>

definition outcome_triple :: "real list list \<Rightarrow> py_error + real \<times> real \<times> real" where
  "outcome_triple matrix =
     (let p_draw = diag_sum matrix;
          p_home = masked_sum (\<lambda>i j. j < i) matrix;
          p_away = masked_sum (\<lambda>i j. i < j) matrix;
          total = py_or (p_home + p_draw + p_away) 1
      in case py_div p_home total of Inl e \<Rightarrow> Inl e | Inr h \<Rightarrow>
         (case py_div p_draw total of Inl e \<Rightarrow> Inl e | Inr d \<Rightarrow>
         (case py_div p_away total of Inl e \<Rightarrow> Inl e | Inr a \<Rightarrow>
            Inr (py_round h 4, py_round d 4, py_round a 4))))"

subsection \<open>Expected-goal rates\<close>

definition elo_expected_home :: "real \<Rightarrow> real \<Rightarrow> real" where
  "elo_expected_home elo_h elo_a = 1 / (1 + 10 powr ((elo_a - elo_h - 100) / 400))"

definition weather_home_factor :: "WeatherData \<Rightarrow> real" where
  "weather_home_factor weather =
     (let reduction = (impact_score weather / 100) * (HOME_FIELD_K - 1)
      in max 1 (HOME_FIELD_K - reduction))"

definition form_adjustment :: "real \<Rightarrow> real" where
  "form_adjustment fs = 1 + (fs - 50) / 500"

text \<open>
  The first part of \<open>calculate_poisson\<close>: the two clipped products, then the
  head-to-head block, which multiplies the clipped values.  The away product divides by
  \<open>home_field\<close> and \<open>elo_adj\<close>; both are positive (lemma \<open>rate_divisors_positive\<close>),
  so these two divisions are written as plain divisions.
\<close>

definition clipped_rates :: "TeamStats \<Rightarrow> TeamStats \<Rightarrow> WeatherData \<Rightarrow> bool \<Rightarrow> real \<times> real" where
  "clipped_rates home away weather neutral_field =
     (let home_field = (if neutral_field then 1 else weather_home_factor weather);
          elo_exp = elo_expected_home (elo home) (elo away);
          elo_adj = 1 + (elo_exp - 1 / 2) * (3 / 10);
          form_adj_h = form_adjustment (form_score home);
          form_adj_a = form_adjustment (form_score away);
          attack_h = max (avg_goals_scored home) (3 / 10) / LEAGUE_AVG_HOME;
          attack_a = max (avg_goals_scored away) (3 / 10) / LEAGUE_AVG_AWAY;
          defense_h = max (avg_goals_conceded home) (3 / 10) / LEAGUE_AVG_HOME;
          defense_a = max (avg_goals_conceded away) (3 / 10) / LEAGUE_AVG_AWAY
      in (clip (LEAGUE_AVG_HOME * attack_h * defense_a * home_field * elo_adj * form_adj_h)
            (3 / 10) 6,
          clip (LEAGUE_AVG_AWAY * attack_a * defense_h / home_field / elo_adj * form_adj_a)
            (3 / 10) 6))"

definition h2h_nudge :: "H2H \<Rightarrow> real \<times> real \<Rightarrow> real \<times> real" where
  "h2h_nudge h2h rates =
     (if 3 \<le> dict_get (matches h2h) 0 then
        (let rate = dict_get (home_win_pct h2h) 50 / 100; blend = 12 / 100 in
         if 55 / 100 < rate then (fst rates * (1 + blend), snd rates * (1 - blend * (1 / 2)))
         else if rate < 35 / 100 then (fst rates * (1 - blend), snd rates * (1 + blend * (1 / 2)))
         else rates)
      else rates)"

definition calculate_poisson ::
  "TeamStats \<Rightarrow> TeamStats \<Rightarrow> WeatherData \<Rightarrow> H2H \<Rightarrow> bool \<Rightarrow> py_error + PoissonResult" where
  "calculate_poisson home away weather h2h neutral_field =
     (let rates = h2h_nudge h2h (clipped_rates home away weather neutral_field);
          lam_h = fst rates;
          lam_a = snd rates;
          matrix = outer (pmf_array lam_h MAX_GOALS) (pmf_array lam_a MAX_GOALS)
      in case outcome_triple matrix of
           Inl e \<Rightarrow> Inl e
         | Inr t \<Rightarrow>
             Inr \<lparr>home_win = fst t, draw = fst (snd t), away_win = snd (snd t),
                  lambda_h = py_round lam_h 2, lambda_a = py_round lam_a 2,
                  total_exp = py_round (lam_h + lam_a) 2,
                  both_score = py_round (calc_both_score matrix) 4,
                  over_1_5 = py_round (calc_over matrix (3 / 2)) 4,
                  over_2_5 = py_round (calc_over matrix (5 / 2)) 4,
                  over_3_5 = py_round (calc_over matrix (7 / 2)) 4\<rparr>)"

text \<open>
  \<open>confidence_level\<close>.  The source labels are display strings (a coloured dot and a
  Russian word for high, medium, low); they are modelled by a datatype.
\<close>

datatype conf_label = High | Medium | Low

definition confidence_level :: "PoissonResult \<Rightarrow> real \<times> conf_label" where
  "confidence_level result =
     (let pct = py_round (best_prob result * 100) 1
      in (pct, if 60 \<le> pct then High else if 48 \<le> pct then Medium else Low))"

section \<open>Dixon-Coles correction (analyzers/dixon_coles.py)\<close>

definition tau :: "nat \<Rightarrow> nat \<Rightarrow> real \<Rightarrow> real \<Rightarrow> real \<Rightarrow> real" where
  "tau x y lam_h lam_a rho =
     (if x = 0 \<and> y = 0 then 1 - lam_h * lam_a * rho
      else if x = 0 \<and> y = 1 then 1 + lam_h * rho
      else if x = 1 \<and> y = 0 then 1 + lam_a * rho
      else if x = 1 \<and> y = 1 then 1 - rho
      else 1)"

text \<open>\<open>matrix[x, y] = v\<close> on a matrix stored as a list of rows.\<close>

definition mat_set :: "real list list \<Rightarrow> nat \<Rightarrow> nat \<Rightarrow> real \<Rightarrow> real list list" where
  "mat_set m x y v = m[x := (m ! x)[y := v]]"

text \<open>The body of the nested loop, and the two loops over \<open>range(min(2, max_goals + 1))\<close>.\<close>

definition tau_cell :: "real \<Rightarrow> real \<Rightarrow> real \<Rightarrow> real list list \<Rightarrow> nat \<Rightarrow> nat \<Rightarrow> real list list" where
  "tau_cell lam_h lam_a rho m x y = mat_set m x y (max 0 (m ! x ! y * tau x y lam_h lam_a rho))"

definition tau_loops :: "real \<Rightarrow> real \<Rightarrow> nat \<Rightarrow> real \<Rightarrow> real list list \<Rightarrow> real list list" where
  "tau_loops lam_h lam_a max_goals rho m =
     fold (\<lambda>x m1. fold (\<lambda>y m2. tau_cell lam_h lam_a rho m2 x y) [0..<min 2 (max_goals + 1)] m1)
       [0..<min 2 (max_goals + 1)] m"

definition build_dc_matrix :: "real \<Rightarrow> real \<Rightarrow> nat \<Rightarrow> real \<Rightarrow> real list list" where
  "build_dc_matrix lam_h lam_a max_goals rho =
     (let matrix = tau_loops lam_h lam_a max_goals rho
                     (outer (pmf_array lam_h max_goals) (pmf_array lam_a max_goals));
          total = matrix_sum matrix
      in if 0 < total then map (map (\<lambda>v. v / total)) matrix else matrix)"

section \<open>Aggregation and blending (analyzers/match_analyzer.py)\<close>

text \<open>
  \<open>_apply_dc_correction\<close> overwrites seven fields of the result.  Its index
  expressions need a square, non-empty array: on any other shape numpy raises
  \<open>IndexError\<close> (a short diagonal, an empty first row, or a boolean mask of another
  shape).
\<close>

definition apply_dc_correction :: "PoissonResult \<Rightarrow> real list list \<Rightarrow> py_error + PoissonResult" where
  "apply_dc_correction poisson dc_matrix =
     (if dc_matrix = [] \<or> \<not> is_square dc_matrix then Inl IndexError
      else case outcome_triple dc_matrix of
             Inl e \<Rightarrow> Inl e
           | Inr t \<Rightarrow>
               Inr (poisson\<lparr>home_win := fst t, draw := fst (snd t), away_win := snd (snd t),
                      both_score := py_round (calc_both_score dc_matrix) 4,
                      over_1_5 := py_round (calc_over dc_matrix (3 / 2)) 4,
                      over_2_5 := py_round (calc_over dc_matrix (5 / 2)) 4,
                      over_3_5 := py_round (calc_over dc_matrix (7 / 2)) 4\<rparr>))"

text \<open>
  The classifier's answer is a dictionary; \<open>_ensemble\<close> reads each key with
  \<open>.get(key, 0.33)\<close>.  The result dictionary carries the triple and its provenance.
\<close>

record MLProbs =
  ml_away_win :: "real option"
  ml_draw :: "real option"
  ml_home_win :: "real option"

record FinalProbs =
  fp_home_win :: real
  fp_draw :: real
  fp_away_win :: real
  source :: string

definition ensemble :: "PoissonResult \<Rightarrow> MLProbs option \<Rightarrow> py_error + FinalProbs" where
  "ensemble poisson ml_probs =
     (case ml_probs of
        None \<Rightarrow>
          Inr \<lparr>fp_home_win = home_win poisson, fp_draw = draw poisson,
               fp_away_win = away_win poisson, source = ''poisson+dc''\<rparr>
      | Some ml \<Rightarrow>
          (let w_p = 7 / 10; w_m = 3 / 10;
               home = w_p * home_win poisson + w_m * dict_get (ml_home_win ml) (33 / 100);
               drw = w_p * draw poisson + w_m * dict_get (ml_draw ml) (33 / 100);
               away = w_p * away_win poisson + w_m * dict_get (ml_away_win ml) (33 / 100);
               tot = py_or (home + drw + away) 1
           in case py_div home tot of Inl e \<Rightarrow> Inl e | Inr h \<Rightarrow>
              (case py_div drw tot of Inl e \<Rightarrow> Inl e | Inr d \<Rightarrow>
              (case py_div away tot of Inl e \<Rightarrow> Inl e | Inr a \<Rightarrow>
                 Inr \<lparr>fp_home_win = py_round h 4, fp_draw = py_round d 4,
                      fp_away_win = py_round a 4, source = ''poisson+dc+ml''\<rparr>))))"

section \<open>The classifier (models/ml_predictor.py)\<close>

text \<open>
  The fitted model and the scaler are foreign objects.  \<open>predict\<close> uses three things of
  them: \<open>scaler.transform\<close> and \<open>model.predict_proba\<close>, either of which may raise or
  return a two-dimensional array, and the optional attribute \<open>classes_\<close>.  A bundle entry
  is \<open>None\<close> when the dictionary has no such key or holds \<open>None\<close> under it; the field
  \<open>bundle_dict\<close> (the attribute \<open>bundle\<close>) is \<open>None\<close> for the falsy values \<open>None\<close> and \<open>{}\<close>.
\<close>

record Scaler =
  transform :: "real list list \<Rightarrow> py_error + real list list"

record Model =
  predict_proba :: "real list list \<Rightarrow> py_error + real list list"
  classes_attr :: "int list option"

record Bundle =
  model :: "Model option"
  scaler :: "Scaler option"

record MatchPredictor =
  bundle_dict :: "Bundle option"
  is_trained :: bool

text \<open>\<open>xs[i]\<close> for a non-negative index, and \<open>xs.index(c)\<close> for an element of the list.\<close>

definition py_index :: "'a list \<Rightarrow> nat \<Rightarrow> py_error + 'a" where
  "py_index xs i = (if i < length xs then Inr (xs ! i) else Inl IndexError)"

fun list_index :: "'a list \<Rightarrow> 'a \<Rightarrow> nat" where
  "list_index [] c = 0"
| "list_index (x # xs) c = (if x = c then 0 else Suc (list_index xs c))"

text \<open>\<open>float(probs[classes.index(c)]) if c in classes else 0.33\<close>\<close>

definition class_prob :: "real list \<Rightarrow> int list \<Rightarrow> int \<Rightarrow> py_error + real" where
  "class_prob probs classes c =
     (if c \<in> set classes then py_index probs (list_index classes c) else Inr (33 / 100))"

text \<open>
  The statements of the \<open>try\<close> block, in their order: reshape to one row, scale when a
  scaler is present, take row 0 of \<open>predict_proba\<close>, read the class order, build the
  dictionary (its fourth entry, the constant tag \<open>"ml"\<close>, is not read by the blender).
\<close>

definition scale_features :: "Bundle \<Rightarrow> real list \<Rightarrow> py_error + real list list" where
  "scale_features b features =
     (case scaler b of None \<Rightarrow> Inr [features] | Some sc \<Rightarrow> transform sc [features])"

definition model_probs :: "Bundle \<Rightarrow> real list list \<Rightarrow> py_error + real list" where
  "model_probs b X =
     (case model b of
        None \<Rightarrow> Inl AttributeError
      | Some mdl \<Rightarrow> (case predict_proba mdl X of Inl e \<Rightarrow> Inl e | Inr out \<Rightarrow> py_index out 0))"

definition model_classes :: "Bundle \<Rightarrow> int list" where
  "model_classes b = (case model b of None \<Rightarrow> [0, 1, 2] | Some mdl \<Rightarrow> dict_get (classes_attr mdl) [0, 1, 2])"

definition probs_dict :: "real list \<Rightarrow> int list \<Rightarrow> py_error + MLProbs" where
  "probs_dict probs classes =
     (case class_prob probs classes 0 of Inl e \<Rightarrow> Inl e | Inr a \<Rightarrow>
     (case class_prob probs classes 1 of Inl e \<Rightarrow> Inl e | Inr d \<Rightarrow>
     (case class_prob probs classes 2 of Inl e \<Rightarrow> Inl e | Inr h \<Rightarrow>
        Inr \<lparr>ml_away_win = Some a, ml_draw = Some d, ml_home_win = Some h\<rparr>)))"

definition predict_try :: "Bundle \<Rightarrow> real list \<Rightarrow> py_error + MLProbs" where
  "predict_try b features =
     (case scale_features b features of Inl e \<Rightarrow> Inl e | Inr X \<Rightarrow>
     (case model_probs b X of Inl e \<Rightarrow> Inl e | Inr probs \<Rightarrow>
        probs_dict probs (model_classes b)))"

text \<open>\<open>MatchPredictor.predict\<close>: the guard, then the \<open>try\<close> block; \<open>except Exception\<close> returns \<open>None\<close>.\<close>

definition predict :: "MatchPredictor \<Rightarrow> real list \<Rightarrow> MLProbs option" where
  "predict mp features =
     (if \<not> is_trained mp then None
      else case bundle_dict mp of
             None \<Rightarrow> None
           | Some b \<Rightarrow> (case predict_try b features of Inl e \<Rightarrow> None | Inr d \<Rightarrow> Some d))"

text \<open>
  A classifier output of malformed shape: no row at all, or a row too short for the
  position of one of the classes 0, 1, 2 in the class order.
\<close>

definition malformed_output :: "int list \<Rightarrow> real list list \<Rightarrow> bool" where
  "malformed_output classes out =
     (out = [] \<or>
      list_ex (\<lambda>c. c \<in> set classes \<and> length (hd out) \<le> list_index classes c) [0, 1, 2])"

section \<open>The evaluation (MatchAnalyzer.analyze_match)\<close>

text \<open>
  The part of \<open>analyze_match\<close> from the base Poisson result on: the classifier step, the
  blend, and the confidence, which is computed from the \<open>PoissonResult\<close>.  The feature
  vector that \<open>build_features\<close> assembles for the classifier is a parameter.
\<close>

record Analysis =
  poisson_out :: PoissonResult
  final_probs :: FinalProbs
  ml_used :: bool
  confidence :: real
  confidence_label :: conf_label

definition analyze_blend :: "MatchPredictor \<Rightarrow> real list \<Rightarrow> PoissonResult \<Rightarrow> py_error + Analysis" where
  "analyze_blend ml feats poisson =
     (let ml_probs = (if is_trained ml then predict ml feats else None)
      in case ensemble poisson ml_probs of
           Inl e \<Rightarrow> Inl e
         | Inr fp \<Rightarrow>
             Inr \<lparr>poisson_out = poisson, final_probs = fp, ml_used = (ml_probs \<noteq> None),
                  confidence = fst (confidence_level poisson),
                  confidence_label = snd (confidence_level poisson)\<rparr>)"

text \<open>
  The numeric core of \<open>analyze_match\<close>, from the adjusted team statistics on: base
  Poisson result, corrected matrix with \<open>rho = -0.13\<close> and the default \<open>max_goals = 10\<close>,
  aggregation, then the blend.
\<close>

definition analyze_core ::
  "MatchPredictor \<Rightarrow> real list \<Rightarrow> TeamStats \<Rightarrow> TeamStats \<Rightarrow> WeatherData \<Rightarrow> H2H \<Rightarrow> bool
     \<Rightarrow> py_error + Analysis" where
  "analyze_core ml feats home_stats away_stats weather_data h2h neutral_field =
     (case calculate_poisson home_stats away_stats weather_data h2h neutral_field of
        Inl e \<Rightarrow> Inl e
      | Inr poisson \<Rightarrow>
          (let dc_matrix = build_dc_matrix (lambda_h poisson) (lambda_a poisson) 10 (- (13 / 100))
           in case apply_dc_correction poisson dc_matrix of
                Inl e \<Rightarrow> Inl e
              | Inr poisson1 \<Rightarrow> analyze_blend ml feats poisson1))"

section \<open>The low-score correction in the words of the specification\<close>

text \<open>
  The Poisson law in closed form, the four factors, the floor at 0 on the corrected
  cells, and the division of every cell by the new total unless that total is 0.
\<close>

definition poisson_pmf :: "real \<Rightarrow> nat \<Rightarrow> real" where
  "poisson_pmf lam k = lam ^ k * exp (- lam) / fact k"

definition spec_raw_cell :: "real \<Rightarrow> real \<Rightarrow> nat \<Rightarrow> nat \<Rightarrow> real" where
  "spec_raw_cell lam_h lam_a i j =
     poisson_pmf (max lam_h (1 / 10 ^ 9)) i * poisson_pmf (max lam_a (1 / 10 ^ 9)) j"

definition spec_factor :: "real \<Rightarrow> real \<Rightarrow> real \<Rightarrow> nat \<Rightarrow> nat \<Rightarrow> real" where
  "spec_factor lam_h lam_a rho i j =
     (if (i, j) = (0, 0) then 1 - lam_h * lam_a * rho
      else if (i, j) = (0, 1) then 1 + lam_h * rho
      else if (i, j) = (1, 0) then 1 + lam_a * rho
      else if (i, j) = (1, 1) then 1 - rho
      else 1)"

definition spec_corrected_cell :: "real \<Rightarrow> real \<Rightarrow> real \<Rightarrow> nat \<Rightarrow> nat \<Rightarrow> real" where
  "spec_corrected_cell lam_h lam_a rho i j =
     (if i \<le> 1 \<and> j \<le> 1
      then max 0 (spec_raw_cell lam_h lam_a i j * spec_factor lam_h lam_a rho i j)
      else spec_raw_cell lam_h lam_a i j)"

definition spec_total :: "real \<Rightarrow> real \<Rightarrow> nat \<Rightarrow> real \<Rightarrow> real" where
  "spec_total lam_h lam_a max_goals rho =
     (\<Sum>i\<le>max_goals. \<Sum>j\<le>max_goals. spec_corrected_cell lam_h lam_a rho i j)"

definition spec_dc_cell :: "real \<Rightarrow> real \<Rightarrow> nat \<Rightarrow> real \<Rightarrow> nat \<Rightarrow> nat \<Rightarrow> real" where
  "spec_dc_cell lam_h lam_a max_goals rho i j =
     (if spec_total lam_h lam_a max_goals rho = 0 then spec_corrected_cell lam_h lam_a rho i j
      else spec_corrected_cell lam_h lam_a rho i j / spec_total lam_h lam_a max_goals rho)"

section \<open>Example inputs\<close>

text \<open>
  A strong home attack against a weak away defence, equal ratings, neutral form, calm
  weather, and five earlier meetings of which the home side won 60 percent.
\<close>

definition ex_home :: TeamStats where
  "ex_home = \<lparr>elo = 1500, form_score = 50, avg_goals_scored = 3, avg_goals_conceded = 14 / 10\<rparr>"

definition ex_away :: TeamStats where
  "ex_away = \<lparr>elo = 1500, form_score = 50, avg_goals_scored = 14 / 10, avg_goals_conceded = 3\<rparr>"

definition ex_weather :: WeatherData where
  "ex_weather = \<lparr>impact_score = 0\<rparr>"

definition ex_h2h :: H2H where
  "ex_h2h = \<lparr>matches = Some 5, home_win_pct = Some 60\<rparr>"

text \<open>The same teams with no head-to-head history.\<close>

definition ex_h2h_none :: H2H where
  "ex_h2h_none = \<lparr>matches = None, home_win_pct = None\<rparr>"

text \<open>
  A corrected result with the triple (0.4, 0.3, 0.3), a classifier answer whose blend is
  close to one third per outcome, and a classifier answer that favours the home side.
\<close>

definition ex_poisson :: PoissonResult where
  "ex_poisson = \<lparr>home_win = 4 / 10, draw = 3 / 10, away_win = 3 / 10, lambda_h = 3 / 2,
     lambda_a = 23 / 20, total_exp = 265 / 100, both_score = 1 / 2, over_1_5 = 7 / 10,
     over_2_5 = 1 / 2, over_3_5 = 3 / 10\<rparr>"

definition ex_ml_third :: MLProbs where
  "ex_ml_third = \<lparr>ml_away_win = Some (41111 / 100000), ml_draw = Some (41111 / 100000),
     ml_home_win = Some (17778 / 100000)\<rparr>"

definition ex_model_home :: Model where
  "ex_model_home = \<lparr>predict_proba = (\<lambda>X. Inr [[5 / 100, 5 / 100, 9 / 10]]), classes_attr = Some [0, 1, 2]\<rparr>"

definition ex_predictor :: MatchPredictor where
  "ex_predictor = \<lparr>bundle_dict = Some \<lparr>model = Some ex_model_home, scaler = None\<rparr>, is_trained = True\<rparr>"

text \<open>A trained predictor whose model raises on every call, and a best probability of 0.5999.\<close>

definition ex_model_raising :: Model where
  "ex_model_raising = \<lparr>predict_proba = (\<lambda>X. Inl ClassifierError), classes_attr = None\<rparr>"

definition ex_predictor_raising :: MatchPredictor where
  "ex_predictor_raising =
     \<lparr>bundle_dict = Some \<lparr>model = Some ex_model_raising, scaler = None\<rparr>, is_trained = True\<rparr>"

definition ex_poisson_5999 :: PoissonResult where
  "ex_poisson_5999 = ex_poisson\<lparr>home_win := 5999 / 10000, draw := 2 / 10, away_win := 2001 / 10000\<rparr>"

text \<open>A two-by-two matrix whose diagonal and two triangles each hold one third.\<close>

definition ex_thirds :: "real list list" where
  "ex_thirds = [[1 / 3, 1 / 3], [1 / 3, 0]]"

section \<open>Rounding and guarded division\<close>

lemma round_half_even_cases:
  "round_half_even x = \<lfloor>x\<rfloor> \<or> round_half_even x = \<lfloor>x\<rfloor> + 1"
  by (simp add: round_half_even_def Let_def)

lemma round_half_even_error: "\<bar>of_int (round_half_even x) - x\<bar> \<le> 1 / 2"
  unfolding round_half_even_def Let_def
  by (auto simp: abs_le_iff)

lemma round_half_even_of_int [simp]: "round_half_even (of_int k) = k"
  by (simp add: round_half_even_def)

lemma round_half_even_mono:
  assumes "x \<le> y" shows "round_half_even x \<le> round_half_even y"
proof (cases "\<lfloor>x\<rfloor> = \<lfloor>y\<rfloor>")
  case True
  then show ?thesis using assms
    by (auto simp: round_half_even_def Let_def)
next
  case False
  with assms have "\<lfloor>x\<rfloor> < \<lfloor>y\<rfloor>" by (simp add: floor_mono le_neq_trans)
  moreover have "round_half_even x \<le> \<lfloor>x\<rfloor> + 1" using round_half_even_cases [of x] by auto
  moreover have "\<lfloor>y\<rfloor> \<le> round_half_even y" using round_half_even_cases [of y] by auto
  ultimately show ?thesis by linarith
qed

lemma py_round_mono: "x \<le> y \<Longrightarrow> py_round x n \<le> py_round y n"
  by (simp add: py_round_def round_half_even_mono divide_right_mono)

lemma py_round_error: "\<bar>py_round x n - x\<bar> \<le> 1 / (2 * 10 ^ n)"
proof -
  have a: "\<bar>of_int (round_half_even (x * 10 ^ n)) - x * 10 ^ n\<bar> \<le> 1 / 2"
    by (rule round_half_even_error)
  have "py_round x n - x = (of_int (round_half_even (x * 10 ^ n)) - x * 10 ^ n) / 10 ^ n"
    by (simp add: py_round_def diff_divide_distrib)
  then have "\<bar>py_round x n - x\<bar> = \<bar>of_int (round_half_even (x * 10 ^ n)) - x * 10 ^ n\<bar> / 10 ^ n"
    by simp
  also have "\<dots> \<le> (1 / 2) / 10 ^ n"
    using a by (rule divide_right_mono) simp
  finally show ?thesis by simp
qed

lemma py_div_py_or [simp]: "py_div a (py_or s 1) = Inr (a / py_or s 1)"
  by (simp add: py_div_def py_or_def)

section \<open>Best outcome\<close>

text \<open>
  Claim C9.  When two or three probabilities tie for the maximum, \<open>best_outcome\<close>
  reports the first of them in the fixed order home win, draw, away win (a three-way tie
  reports the home win), and \<open>best_prob\<close> is the probability of the reported outcome.
\<close>

theorem best_outcome_first_maximum:
  "best_outcome r =
     (if draw r \<le> home_win r \<and> away_win r \<le> home_win r then ''home_win''
      else if home_win r < draw r \<and> away_win r \<le> draw r then ''draw''
      else ''away_win'')
   \<and> best_prob r = outcome_prob r (best_outcome r)
   \<and> (home_win r = draw r \<and> draw r = away_win r \<longrightarrow> best_outcome r = ''home_win'')"
  by (auto simp: best_outcome_def best_prob_def outcome_prob_def)

theorem best_outcome_first_maximum_witness:
  "best_outcome \<lparr>home_win = 1/3, draw = 1/3, away_win = 1/3, lambda_h = 1, lambda_a = 1,
       total_exp = 2, both_score = 0, over_1_5 = 0, over_2_5 = 0, over_3_5 = 0\<rparr> = ''home_win''"
  using best_outcome_first_maximum
    [of "\<lparr>home_win = 1/3, draw = 1/3, away_win = 1/3, lambda_h = 1, lambda_a = 1,
       total_exp = 2, both_score = 0, over_1_5 = 0, over_2_5 = 0, over_3_5 = 0\<rparr>"]
  by simp


section \<open>Expected-goal rates\<close>

lemma clip_bounds: "lo \<le> hi \<Longrightarrow> lo \<le> clip x lo hi \<and> clip x lo hi \<le> hi"
  by (simp add: clip_def)

lemma clip_above: "lo \<le> hi \<Longrightarrow> hi \<le> x \<Longrightarrow> clip x lo hi = hi"
  by (simp add: clip_def)

lemma elo_expected_home_range: "0 < elo_expected_home a b \<and> elo_expected_home a b < 1"
proof -
  define p where "p = 10 powr ((b - a - 100) / 400)"
  have "0 < p" by (simp add: p_def)
  then have "0 < 1 / (1 + p) \<and> 1 / (1 + p) < 1"
    by (simp add: add_pos_pos)
  then show ?thesis by (simp add: elo_expected_home_def p_def)
qed

lemma rate_divisors_positive:
  "1 \<le> weather_home_factor weather
   \<and> 0 < 1 + (elo_expected_home a b - 1 / 2) * (3 / 10)"
proof -
  have "0 < e \<Longrightarrow> 0 < 1 + (e - 1 / 2) * (3 / 10)" for e :: real
    by (simp add: field_simps)
  then have "0 < 1 + (elo_expected_home a b - 1 / 2) * (3 / 10)"
    using elo_expected_home_range by blast
  moreover have "1 \<le> weather_home_factor weather"
    by (simp add: weather_home_factor_def Let_def)
  ultimately show ?thesis by blast
qed

lemma clipped_rates_range:
  "3 / 10 \<le> fst (clipped_rates home away weather nf) \<and> fst (clipped_rates home away weather nf) \<le> 6
   \<and> 3 / 10 \<le> snd (clipped_rates home away weather nf) \<and> snd (clipped_rates home away weather nf) \<le> 6"
  by (simp add: clipped_rates_def Let_def clip_def)

lemma outcome_triple_Inr:
  "outcome_triple m =
     Inr (py_round (masked_sum (\<lambda>i j. j < i) m / py_or (masked_sum (\<lambda>i j. j < i) m + diag_sum m + masked_sum (\<lambda>i j. i < j) m) 1) 4,
          py_round (diag_sum m / py_or (masked_sum (\<lambda>i j. j < i) m + diag_sum m + masked_sum (\<lambda>i j. i < j) m) 1) 4,
          py_round (masked_sum (\<lambda>i j. i < j) m / py_or (masked_sum (\<lambda>i j. j < i) m + diag_sum m + masked_sum (\<lambda>i j. i < j) m) 1) 4)"
  by (simp add: outcome_triple_def Let_def)

lemma calculate_poisson_Inr:
  "\<exists>r. calculate_poisson home away weather h2h nf = Inr r
     \<and> lambda_h r = py_round (fst (h2h_nudge h2h (clipped_rates home away weather nf))) 2
     \<and> lambda_a r = py_round (snd (h2h_nudge h2h (clipped_rates home away weather nf))) 2"
  by (simp add: calculate_poisson_def Let_def outcome_triple_Inr)

lemma py_round_26: "py_round (264 / 1000) 2 = 26 / 100"
  by (simp add: py_round_def round_half_even_def Let_def)
lemma py_round_672: "py_round (672 / 100) 2 = 672 / 100"
  by (simp add: py_round_def round_half_even_def Let_def)
lemma py_round_28: "py_round (282 / 1000) 2 = 28 / 100"
  by (simp add: py_round_def round_half_even_def Let_def)
lemma py_round_636: "py_round (636 / 100) 2 = 636 / 100"
  by (simp add: py_round_def round_half_even_def Let_def)
lemma py_round_03: "py_round (3 / 10) 2 = 3 / 10"
  by (simp add: py_round_def round_half_even_def Let_def)
lemma py_round_6: "py_round 6 2 = 6"
  by (simp add: py_round_def round_half_even_def Let_def)

lemma py_round_between:
  "py_round lo n = lo' \<Longrightarrow> py_round hi n = hi' \<Longrightarrow> lo \<le> x \<Longrightarrow> x \<le> hi \<Longrightarrow>
   lo' \<le> py_round x n \<and> py_round x n \<le> hi'"
  using py_round_mono by blast

lemma h2h_nudge_cases:
  "h2h_nudge h2h c =
     (if 3 \<le> dict_get (matches h2h) 0 \<and> 55 < dict_get (home_win_pct h2h) 50
        then (fst c * (112 / 100), snd c * (94 / 100))
      else if 3 \<le> dict_get (matches h2h) 0 \<and> dict_get (home_win_pct h2h) 50 < 35
        then (fst c * (88 / 100), snd c * (106 / 100))
      else c)"
  by (simp add: h2h_nudge_def Let_def)

lemma h2h_nudge_range:
  assumes "3 / 10 \<le> fst c" "fst c \<le> 6" "3 / 10 \<le> snd c" "snd c \<le> 6"
  shows "264 / 1000 \<le> fst (h2h_nudge h2h c) \<and> fst (h2h_nudge h2h c) \<le> 672 / 100
       \<and> 282 / 1000 \<le> snd (h2h_nudge h2h c) \<and> snd (h2h_nudge h2h c) \<le> 636 / 100"
  using assms by (auto simp: h2h_nudge_cases)

text \<open>
  Claim C1, as amended.  \<open>calculate_poisson\<close> clips each rate to \<open>[0.3, 6.0]\<close> before the
  head-to-head block, not after it.  With three or more meetings and a historical
  home-win rate above 55 percent the clipped rates are multiplied by 1.12 (home) and 0.94
  (away), below 35 percent by 0.88 and 1.06, and the products are rounded to two
  decimals.  The call always returns; the returned \<open>lambda_h\<close> lies in \<open>[0.26, 6.72]\<close> and
  \<open>lambda_a\<close> in \<open>[0.28, 6.36]\<close>, and both lie in \<open>[0.3, 6.0]\<close> whenever the head-to-head
  block does not fire.
\<close>

theorem calculate_poisson_rates:
  "\<exists>r. calculate_poisson home away weather h2h nf = Inr r
     \<and> 26 / 100 \<le> lambda_h r \<and> lambda_h r \<le> 672 / 100
     \<and> 28 / 100 \<le> lambda_a r \<and> lambda_a r \<le> 636 / 100
     \<and> (3 \<le> dict_get (matches h2h) 0 \<and> 55 < dict_get (home_win_pct h2h) 50 \<longrightarrow>
          lambda_h r = py_round (fst (clipped_rates home away weather nf) * (112 / 100)) 2
        \<and> lambda_a r = py_round (snd (clipped_rates home away weather nf) * (94 / 100)) 2)
     \<and> (3 \<le> dict_get (matches h2h) 0 \<and> dict_get (home_win_pct h2h) 50 < 35 \<longrightarrow>
          lambda_h r = py_round (fst (clipped_rates home away weather nf) * (88 / 100)) 2
        \<and> lambda_a r = py_round (snd (clipped_rates home away weather nf) * (106 / 100)) 2)
     \<and> (dict_get (matches h2h) 0 < 3
          \<or> (35 \<le> dict_get (home_win_pct h2h) 50 \<and> dict_get (home_win_pct h2h) 50 \<le> 55) \<longrightarrow>
          lambda_h r = py_round (fst (clipped_rates home away weather nf)) 2
        \<and> lambda_a r = py_round (snd (clipped_rates home away weather nf)) 2
        \<and> 3 / 10 \<le> lambda_h r \<and> lambda_h r \<le> 6 \<and> 3 / 10 \<le> lambda_a r \<and> lambda_a r \<le> 6)"
proof -
  let ?c = "clipped_rates home away weather nf"
  let ?n = "h2h_nudge h2h ?c"
  obtain r where r: "calculate_poisson home away weather h2h nf = Inr r"
    "lambda_h r = py_round (fst ?n) 2" "lambda_a r = py_round (snd ?n) 2"
    using calculate_poisson_Inr by blast
  have c: "3 / 10 \<le> fst ?c" "fst ?c \<le> 6" "3 / 10 \<le> snd ?c" "snd ?c \<le> 6"
    using clipped_rates_range by blast+
  have n: "264 / 1000 \<le> fst ?n" "fst ?n \<le> 672 / 100" "282 / 1000 \<le> snd ?n" "snd ?n \<le> 636 / 100"
    using h2h_nudge_range [OF c] by blast+
  have b1: "26 / 100 \<le> lambda_h r \<and> lambda_h r \<le> 672 / 100"
    unfolding r using py_round_between [OF py_round_26 py_round_672 n(1) n(2)] .
  have b2: "28 / 100 \<le> lambda_a r \<and> lambda_a r \<le> 636 / 100"
    unfolding r using py_round_between [OF py_round_28 py_round_636 n(3) n(4)] .
  have b3: "3 / 10 \<le> py_round (fst ?c) 2 \<and> py_round (fst ?c) 2 \<le> 6"
    using py_round_between [OF py_round_03 py_round_6 c(1) c(2)] .
  have b4: "3 / 10 \<le> py_round (snd ?c) 2 \<and> py_round (snd ?c) 2 \<le> 6"
    using py_round_between [OF py_round_03 py_round_6 c(3) c(4)] .
  show ?thesis
    apply (rule exI [of _ r])
    using r(1) b1 b2 b3 b4 by (auto simp: r(2,3) h2h_nudge_cases)
qed

text \<open>
  The claim as stated fails: on the example inputs the home product exceeds 6, is clipped
  to 6 and then raised by the head-to-head block to 6.72.
\<close>

lemma ex_clipped_home: "fst (clipped_rates ex_home ex_away ex_weather False) = 6"
proof -
  have e: "0 < elo_expected_home 1500 1500" using elo_expected_home_range by simp
  show ?thesis
    using e
    by (simp add: clipped_rates_def Let_def ex_home_def ex_away_def ex_weather_def
        weather_home_factor_def form_adjustment_def LEAGUE_AVG_HOME_def LEAGUE_AVG_AWAY_def
        HOME_FIELD_K_def clip_def min_def max_def field_simps)
qed

theorem calculate_poisson_rate_above_clip:
  "(case calculate_poisson ex_home ex_away ex_weather ex_h2h False of
      Inl e \<Rightarrow> False | Inr r \<Rightarrow> lambda_h r = 672 / 100 \<and> \<not> lambda_h r \<le> 6)"
proof -
  obtain r where r: "calculate_poisson ex_home ex_away ex_weather ex_h2h False = Inr r"
    "lambda_h r = py_round (fst (h2h_nudge ex_h2h (clipped_rates ex_home ex_away ex_weather False))) 2"
    using calculate_poisson_Inr by blast
  have h: "fst (h2h_nudge ex_h2h (clipped_rates ex_home ex_away ex_weather False)) = 672 / 100"
    by (simp add: h2h_nudge_cases ex_h2h_def dict_get_def ex_clipped_home)
  have "lambda_h r = 672 / 100" unfolding r(2) h by (rule py_round_672)
  then show ?thesis by (simp add: r(1))
qed

theorem calculate_poisson_rates_witness:
  "\<exists>r. calculate_poisson ex_home ex_away ex_weather ex_h2h_none False = Inr r
     \<and> lambda_h r = 6 \<and> 3 / 10 \<le> lambda_a r \<and> lambda_a r \<le> 6"
  using calculate_poisson_rates [of ex_home ex_away ex_weather ex_h2h_none False]
  by (auto simp: ex_h2h_none_def dict_get_def ex_clipped_home py_round_6)

section \<open>The ensemble blender\<close>

lemma ensemble_None:
  "ensemble p None =
     Inr \<lparr>fp_home_win = home_win p, fp_draw = draw p, fp_away_win = away_win p,
          source = ''poisson+dc''\<rparr>"
  by (simp add: ensemble_def)

lemma ensemble_Some:
  "ensemble p (Some ml) =
     Inr \<lparr>fp_home_win = py_round ((7 / 10 * home_win p + 3 / 10 * dict_get (ml_home_win ml) (33 / 100))
              / py_or ((7 / 10 * home_win p + 3 / 10 * dict_get (ml_home_win ml) (33 / 100))
                  + (7 / 10 * draw p + 3 / 10 * dict_get (ml_draw ml) (33 / 100))
                  + (7 / 10 * away_win p + 3 / 10 * dict_get (ml_away_win ml) (33 / 100))) 1) 4,
          fp_draw = py_round ((7 / 10 * draw p + 3 / 10 * dict_get (ml_draw ml) (33 / 100))
              / py_or ((7 / 10 * home_win p + 3 / 10 * dict_get (ml_home_win ml) (33 / 100))
                  + (7 / 10 * draw p + 3 / 10 * dict_get (ml_draw ml) (33 / 100))
                  + (7 / 10 * away_win p + 3 / 10 * dict_get (ml_away_win ml) (33 / 100))) 1) 4,
          fp_away_win = py_round ((7 / 10 * away_win p + 3 / 10 * dict_get (ml_away_win ml) (33 / 100))
              / py_or ((7 / 10 * home_win p + 3 / 10 * dict_get (ml_home_win ml) (33 / 100))
                  + (7 / 10 * draw p + 3 / 10 * dict_get (ml_draw ml) (33 / 100))
                  + (7 / 10 * away_win p + 3 / 10 * dict_get (ml_away_win ml) (33 / 100))) 1) 4,
          source = ''poisson+dc+ml''\<rparr>"
  unfolding ensemble_def Let_def option.case py_div_py_or sum.case ..

text \<open>
  Claim C6, as amended.  Without a classifier answer the triple of the result is passed
  through unchanged and tagged \<open>poisson+dc\<close> (matrix only).  With a classifier triple the
  blend is \<open>0.70\<close> times the matrix probability plus \<open>0.30\<close> times the classifier
  probability per outcome; each blended value is divided by the sum of the three (by 1
  when that sum is 0) and then rounded to four decimals, and the result is tagged
  \<open>poisson+dc+ml\<close> (matrix and classifier).
\<close>

theorem ensemble_blend_rounded:
  "ensemble p None =
     Inr \<lparr>fp_home_win = home_win p, fp_draw = draw p, fp_away_win = away_win p,
          source = ''poisson+dc''\<rparr>
   \<and> (let home = 7 / 10 * home_win p + 3 / 10 * mh;
           drw = 7 / 10 * draw p + 3 / 10 * md;
           away = 7 / 10 * away_win p + 3 / 10 * ma;
           tot = (if home + drw + away = 0 then 1 else home + drw + away)
       in ensemble p (Some \<lparr>ml_away_win = Some ma, ml_draw = Some md, ml_home_win = Some mh\<rparr>) =
            Inr \<lparr>fp_home_win = py_round (home / tot) 4, fp_draw = py_round (drw / tot) 4,
                 fp_away_win = py_round (away / tot) 4, source = ''poisson+dc+ml''\<rparr>)"
  using ensemble_None [of p]
    ensemble_Some [of p "\<lparr>ml_away_win = Some ma, ml_draw = Some md, ml_home_win = Some mh\<rparr>"]
  by (simp add: Let_def py_or_def dict_get_def)

text \<open>
  The claim as stated leaves the rounding out: for the example the blend is
  \<open>(0.333334, 0.333333, 0.333333)\<close>, which sums to 1, and the returned home value is
  \<open>0.3333\<close>.
\<close>

lemma py_round_333334: "py_round (333334 / 1000000) 4 = 3333 / 10000"
  by (simp add: py_round_def round_half_even_def Let_def)

lemma py_round_333333: "py_round (333333 / 1000000) 4 = 3333 / 10000"
  by (simp add: py_round_def round_half_even_def Let_def)

lemma ex_ensemble_third:
  "ensemble ex_poisson (Some ex_ml_third) =
     Inr \<lparr>fp_home_win = 3333 / 10000, fp_draw = 3333 / 10000, fp_away_win = 3333 / 10000,
          source = ''poisson+dc+ml''\<rparr>"
proof -
  have "ensemble ex_poisson (Some ex_ml_third) =
     Inr \<lparr>fp_home_win = py_round (333334 / 1000000) 4, fp_draw = py_round (333333 / 1000000) 4,
          fp_away_win = py_round (333333 / 1000000) 4, source = ''poisson+dc+ml''\<rparr>"
    by (simp add: ensemble_Some dict_get_def py_or_def ex_poisson_def ex_ml_third_def)
  then show ?thesis by (simp only: py_round_333334 py_round_333333)
qed

theorem ensemble_rounds_the_blend:
  "(case ensemble ex_poisson (Some ex_ml_third) of
      Inl e \<Rightarrow> False
    | Inr f \<Rightarrow> fp_home_win f = 3333 / 10000
        \<and> fp_home_win f \<noteq>
            (7 / 10 * home_win ex_poisson + 3 / 10 * (17778 / 100000))
            / ((7 / 10 * home_win ex_poisson + 3 / 10 * (17778 / 100000))
               + (7 / 10 * draw ex_poisson + 3 / 10 * (41111 / 100000))
               + (7 / 10 * away_win ex_poisson + 3 / 10 * (41111 / 100000))))"
  by (simp add: ex_ensemble_third) (simp add: ex_poisson_def)

section \<open>The confidence scorer\<close>

lemma ensemble_returns: "\<exists>f. ensemble p x = Inr f"
  by (cases x) (simp_all add: ensemble_None ensemble_Some)

lemma confidence_level_eq:
  "confidence_level p =
     (py_round (best_prob p * 100) 1,
      if 60 \<le> py_round (best_prob p * 100) 1 then High
      else if 48 \<le> py_round (best_prob p * 100) 1 then Medium else Low)"
  by (simp add: confidence_level_def Let_def)

lemma analyze_blend_confidence:
  "\<exists>a. analyze_blend mp feats p = Inr a
     \<and> confidence a = fst (confidence_level p) \<and> confidence_label a = snd (confidence_level p)"
proof -
  obtain f where "ensemble p (if is_trained mp then predict mp feats else None) = Inr f"
    using ensemble_returns by blast
  then show ?thesis by (simp add: analyze_blend_def Let_def)
qed

text \<open>
  Claim C5, as amended.  The confidence is computed from the \<open>PoissonResult\<close> after the
  Dixon-Coles correction, not from the blended triple: the percentage is 100 times the
  largest of its three probabilities, rounded to one decimal, whether or not a
  classifier answer was blended in.  The label is high iff the rounded percentage is at
  least 60, medium iff it is at least 48 and below 60, and low otherwise.  The comparison
  is on the rounded percentage, so 0.60 and 0.5999 both give 60.0 and high, 0.48 and
  0.4799 both give 48.0 and medium, and 0.40 gives low.
\<close>

theorem confidence_of_poisson_result:
  "(\<exists>a. analyze_blend mp feats p = Inr a
      \<and> confidence a = py_round (best_prob p * 100) 1
      \<and> (confidence_label a = High) = (60 \<le> confidence a)
      \<and> (confidence_label a = Medium) = (48 \<le> confidence a \<and> confidence a < 60)
      \<and> (confidence_label a = Low) = (confidence a < 48))
   \<and> confidence_level (p\<lparr>home_win := 6 / 10, draw := 2 / 10, away_win := 2 / 10\<rparr>) = (60, High)
   \<and> confidence_level (p\<lparr>home_win := 5999 / 10000, draw := 2 / 10, away_win := 2001 / 10000\<rparr>) = (60, High)
   \<and> confidence_level (p\<lparr>home_win := 48 / 100, draw := 26 / 100, away_win := 26 / 100\<rparr>) = (48, Medium)
   \<and> confidence_level (p\<lparr>home_win := 4799 / 10000, draw := 26 / 100, away_win := 2601 / 10000\<rparr>) = (48, Medium)
   \<and> confidence_level (p\<lparr>home_win := 4 / 10, draw := 3 / 10, away_win := 3 / 10\<rparr>) = (40, Low)"
proof -
  obtain a where a: "analyze_blend mp feats p = Inr a"
    "confidence a = fst (confidence_level p)" "confidence_label a = snd (confidence_level p)"
    using analyze_blend_confidence by blast
  have 1: "\<exists>a. analyze_blend mp feats p = Inr a
      \<and> confidence a = py_round (best_prob p * 100) 1
      \<and> (confidence_label a = High) = (60 \<le> confidence a)
      \<and> (confidence_label a = Medium) = (48 \<le> confidence a \<and> confidence a < 60)
      \<and> (confidence_label a = Low) = (confidence a < 48)"
    apply (rule exI [of _ a])
    using a by (auto simp: confidence_level_eq)
  have 2: "confidence_level (p\<lparr>home_win := 6 / 10, draw := 2 / 10, away_win := 2 / 10\<rparr>) = (60, High)"
    by (simp add: confidence_level_def best_prob_def py_round_def round_half_even_def Let_def)
  have 3: "confidence_level (p\<lparr>home_win := 5999 / 10000, draw := 2 / 10, away_win := 2001 / 10000\<rparr>) = (60, High)"
    by (simp add: confidence_level_def best_prob_def py_round_def round_half_even_def Let_def)
  have 4: "confidence_level (p\<lparr>home_win := 48 / 100, draw := 26 / 100, away_win := 26 / 100\<rparr>) = (48, Medium)"
    by (simp add: confidence_level_def best_prob_def py_round_def round_half_even_def Let_def)
  have 5: "confidence_level (p\<lparr>home_win := 4799 / 10000, draw := 26 / 100, away_win := 2601 / 10000\<rparr>) = (48, Medium)"
    by (simp add: confidence_level_def best_prob_def py_round_def round_half_even_def Let_def)
  have 6: "confidence_level (p\<lparr>home_win := 4 / 10, draw := 3 / 10, away_win := 3 / 10\<rparr>) = (40, Low)"
    by (simp add: confidence_level_def best_prob_def py_round_def round_half_even_def Let_def)
  show ?thesis using 1 2 3 4 5 6 by blast
qed

text \<open>
  The claim as stated fails twice.  With the matrix triple (0.4, 0.3, 0.3) and a
  classifier answer of 0.9 for the home side the final triple has maximum 0.55, and the
  reported confidence is 40.0 with the label low.  And a best probability of 0.5999 is
  labelled high, not medium.
\<close>

lemma ex_predict_home:
  "predict ex_predictor feats =
     Some \<lparr>ml_away_win = Some (5 / 100), ml_draw = Some (5 / 100), ml_home_win = Some (9 / 10)\<rparr>"
  by (simp add: predict_def ex_predictor_def predict_try_def scale_features_def model_probs_def
      ex_model_home_def py_index_def probs_dict_def class_prob_def model_classes_def dict_get_def)

lemma py_round_55: "py_round (55 / 100) 4 = 55 / 100"
  by (simp add: py_round_def round_half_even_def Let_def)
lemma py_round_225: "py_round (225 / 1000) 4 = 225 / 1000"
  by (simp add: py_round_def round_half_even_def Let_def)

lemma ex_ensemble_home:
  "ensemble ex_poisson (predict ex_predictor feats) =
     Inr \<lparr>fp_home_win = 55 / 100, fp_draw = 225 / 1000, fp_away_win = 225 / 1000,
          source = ''poisson+dc+ml''\<rparr>"
proof -
  have "ensemble ex_poisson (predict ex_predictor feats) =
     Inr \<lparr>fp_home_win = py_round (55 / 100) 4, fp_draw = py_round (225 / 1000) 4,
          fp_away_win = py_round (225 / 1000) 4, source = ''poisson+dc+ml''\<rparr>"
    by (simp add: ex_predict_home ensemble_Some dict_get_def py_or_def ex_poisson_def)
  then show ?thesis by (simp only: py_round_55 py_round_225)
qed

theorem confidence_ignores_the_blend:
  "(case analyze_blend ex_predictor [] ex_poisson of
      Inl e \<Rightarrow> False
    | Inr a \<Rightarrow> ml_used a \<and> fp_home_win (final_probs a) = 55 / 100
        \<and> fp_draw (final_probs a) = 225 / 1000 \<and> fp_away_win (final_probs a) = 225 / 1000
        \<and> confidence a = 40 \<and> confidence_label a = Low
        \<and> confidence a \<noteq> py_round (100 * fp_home_win (final_probs a)) 1)
   \<and> confidence_level ex_poisson_5999 = (60, High)"
proof -
  have c: "confidence_level ex_poisson = (40, Low)"
    by (simp add: ex_poisson_def confidence_level_def best_prob_def py_round_def
        round_half_even_def Let_def)
  have t: "is_trained ex_predictor" by (simp add: ex_predictor_def)
  have 1: "analyze_blend ex_predictor [] ex_poisson =
      Inr \<lparr>poisson_out = ex_poisson,
           final_probs = \<lparr>fp_home_win = 55 / 100, fp_draw = 225 / 1000, fp_away_win = 225 / 1000,
             source = ''poisson+dc+ml''\<rparr>,
           ml_used = True, confidence = 40, confidence_label = Low\<rparr>"
    unfolding analyze_blend_def Let_def
    by (simp only: t if_True ex_ensemble_home sum.case) (simp add: ex_predict_home c)
  have 2: "confidence_level ex_poisson_5999 = (60, High)"
    by (simp add: ex_poisson_5999_def ex_poisson_def confidence_level_def best_prob_def
        py_round_def round_half_even_def Let_def)
  show ?thesis unfolding 1 2 by (simp add: py_round_def round_half_even_def Let_def)
qed

section \<open>Division by the three-way sum\<close>

lemma sum_list_nonneg_upt:
  "(\<And>i. i < n \<Longrightarrow> 0 \<le> f i) \<Longrightarrow> (0::real) \<le> (\<Sum>i\<leftarrow>[0..<n]. f i)"
  by (rule sum_list_nonneg) auto

lemma nonneg_cell:
  assumes "list_all (list_all (\<lambda>v. 0 \<le> v)) m" "i < length m" "j < length (m ! i)"
  shows "(0::real) \<le> m ! i ! j"
  using assms by (simp add: list_all_length)

lemma masked_sum_nonneg:
  assumes "list_all (list_all (\<lambda>v. 0 \<le> v)) m"
  shows "0 \<le> masked_sum keep m"
  unfolding masked_sum_def
  by (intro sum_list_nonneg_upt) (simp add: nonneg_cell [OF assms])

lemma diag_sum_nonneg:
  assumes "list_all (list_all (\<lambda>v. 0 \<le> v)) m" "is_square m"
  shows "0 \<le> diag_sum m"
  unfolding diag_sum_def
proof (intro sum_list_nonneg_upt)
  fix i assume i: "i < length m"
  then have "length (m ! i) = length m" using assms(2) by (simp add: is_square_def list_all_length)
  then show "0 \<le> m ! i ! i" using nonneg_cell [OF assms(1) i] i by simp
qed

lemma py_round_zero [simp]: "py_round 0 n = 0"
  by (simp add: py_round_def round_half_even_def)

lemma outcome_triple_zero:
  assumes "list_all (list_all (\<lambda>v. 0 \<le> v)) m" "is_square m"
    "masked_sum (\<lambda>i j. j < i) m + diag_sum m + masked_sum (\<lambda>i j. i < j) m = 0"
  shows "outcome_triple m = Inr (0, 0, 0)"
proof -
  have "0 \<le> masked_sum (\<lambda>i j. j < i) m" "0 \<le> diag_sum m" "0 \<le> masked_sum (\<lambda>i j. i < j) m"
    using assms masked_sum_nonneg diag_sum_nonneg by blast+
  with assms(3) have "masked_sum (\<lambda>i j. j < i) m = 0" "diag_sum m = 0" "masked_sum (\<lambda>i j. i < j) m = 0"
    by linarith+
  then show ?thesis by (simp add: outcome_triple_Inr)
qed

lemma apply_dc_correction_no_zero_division: "apply_dc_correction p m \<noteq> Inl ZeroDivisionError"
  by (simp add: apply_dc_correction_def outcome_triple_Inr)

lemma apply_dc_correction_returns:
  "m \<noteq> [] \<Longrightarrow> is_square m \<Longrightarrow> \<exists>q. apply_dc_correction p m = Inr q
     \<and> (home_win q, draw q, away_win q) = projr (outcome_triple m)"
  by (simp add: apply_dc_correction_def outcome_triple_Inr)

lemma ensemble_zero:
  assumes "0 \<le> home_win p" "0 \<le> draw p" "0 \<le> away_win p" "0 \<le> mh" "0 \<le> md" "0 \<le> ma"
    "(7 / 10 * home_win p + 3 / 10 * mh) + (7 / 10 * draw p + 3 / 10 * md)
       + (7 / 10 * away_win p + 3 / 10 * ma) = 0"
  shows "ensemble p (Some \<lparr>ml_away_win = Some ma, ml_draw = Some md, ml_home_win = Some mh\<rparr>) =
     Inr \<lparr>fp_home_win = 0, fp_draw = 0, fp_away_win = 0, source = ''poisson+dc+ml''\<rparr>"
proof -
  have "home_win p = 0" "draw p = 0" "away_win p = 0" "mh = 0" "md = 0" "ma = 0"
    using assms by linarith+
  then show ?thesis by (simp add: ensemble_Some dict_get_def)
qed

text \<open>
  Claim C10.  The renormalisations of the outcome triple never divide by zero: the
  aggregation returns for every matrix, \<open>calculate_poisson\<close> and the blender always
  return, and \<open>_apply_dc_correction\<close> never raises \<open>ZeroDivisionError\<close> and returns for
  every square non-empty matrix.  When the three-way sum is exactly 0 the divisor is 1,
  and for non-negative entries (a scoreline matrix, a probability triple) the returned
  triple is all zero.
\<close>

theorem renormalization_never_divides_by_zero:
  "(\<exists>t. outcome_triple m = Inr t)
   \<and> (\<exists>r. calculate_poisson home away weather h2h nf = Inr r)
   \<and> apply_dc_correction p m \<noteq> Inl ZeroDivisionError
   \<and> (m \<noteq> [] \<and> is_square m \<longrightarrow> (\<exists>q. apply_dc_correction p m = Inr q))
   \<and> (\<exists>f. ensemble p ml = Inr f)
   \<and> (m \<noteq> [] \<and> is_square m \<and> list_all (list_all (\<lambda>v. 0 \<le> v)) m
        \<and> masked_sum (\<lambda>i j. j < i) m + diag_sum m + masked_sum (\<lambda>i j. i < j) m = 0 \<longrightarrow>
        (\<exists>q. apply_dc_correction p m = Inr q \<and> home_win q = 0 \<and> draw q = 0 \<and> away_win q = 0))
   \<and> (0 \<le> home_win p \<and> 0 \<le> draw p \<and> 0 \<le> away_win p \<and> 0 \<le> mh \<and> 0 \<le> md \<and> 0 \<le> ma
        \<and> (7 / 10 * home_win p + 3 / 10 * mh) + (7 / 10 * draw p + 3 / 10 * md)
            + (7 / 10 * away_win p + 3 / 10 * ma) = 0 \<longrightarrow>
        ensemble p (Some \<lparr>ml_away_win = Some ma, ml_draw = Some md, ml_home_win = Some mh\<rparr>) =
          Inr \<lparr>fp_home_win = 0, fp_draw = 0, fp_away_win = 0, source = ''poisson+dc+ml''\<rparr>)"
proof -
  have 1: "\<exists>t. outcome_triple m = Inr t" by (simp add: outcome_triple_Inr)
  have 2: "\<exists>r. calculate_poisson home away weather h2h nf = Inr r"
    using calculate_poisson_Inr by blast
  have 6: "\<exists>q. apply_dc_correction p m = Inr q \<and> home_win q = 0 \<and> draw q = 0 \<and> away_win q = 0"
    if "m \<noteq> []" "is_square m" "list_all (list_all (\<lambda>v. 0 \<le> v)) m"
      "masked_sum (\<lambda>i j. j < i) m + diag_sum m + masked_sum (\<lambda>i j. i < j) m = 0"
    using apply_dc_correction_returns [OF that(1,2), of p] outcome_triple_zero [OF that(3,2,4)]
    by auto
  show ?thesis
    using 1 2 6 apply_dc_correction_no_zero_division apply_dc_correction_returns
      ensemble_returns ensemble_zero
    by (intro conjI impI) blast+
qed

theorem renormalization_never_divides_by_zero_witness:
  "(\<exists>q. apply_dc_correction ex_poisson [[0, 0], [0, 0]] = Inr q
      \<and> home_win q = 0 \<and> draw q = 0 \<and> away_win q = 0)
   \<and> ensemble (ex_poisson\<lparr>home_win := 0, draw := 0, away_win := 0\<rparr>)
        (Some \<lparr>ml_away_win = Some 0, ml_draw = Some 0, ml_home_win = Some 0\<rparr>) =
       Inr \<lparr>fp_home_win = 0, fp_draw = 0, fp_away_win = 0, source = ''poisson+dc+ml''\<rparr>"
proof -
  have z: "masked_sum (\<lambda>i j. j < i) [[0, 0], [0, 0]] + diag_sum [[0, 0], [0, 0]]
      + masked_sum (\<lambda>i j. i < j) [[0, 0], [0, 0]] = 0"
    by (simp add: masked_sum_def diag_sum_def)
  have s: "is_square [[0, 0], [0, 0 :: real]]" by (simp add: is_square_def)
  show ?thesis
    using renormalization_never_divides_by_zero
      [of "[[0, 0], [0, 0]]" ex_home ex_away ex_weather ex_h2h False ex_poisson None 0 0 0]
      renormalization_never_divides_by_zero
      [of "[[0, 0], [0, 0]]" ex_home ex_away ex_weather ex_h2h False
          "ex_poisson\<lparr>home_win := 0, draw := 0, away_win := 0\<rparr>" None 0 0 0]
      z s
    by simp
qed

section \<open>Poisson masses and matrix sums\<close>

lemma exp_log_fact: "exp (log_fact k) = fact k"
proof (induction k)
  case 0
  show ?case by simp
next
  case (Suc k)
  have "exp (log_fact (Suc k)) = exp (log_fact k) * exp (ln (real (Suc k)))"
    by (simp add: exp_add)
  also have "\<dots> = fact k * real (Suc k)" using Suc by simp
  finally show ?case by (simp add: mult.commute)
qed

lemma pmf_closed_form:
  assumes "0 < lam"
  shows "exp (real k * ln lam - lam - log_fact k) = poisson_pmf lam k"
proof -
  have p: "exp (real k * ln lam) = lam ^ k"
    using assms by (simp add: exp_of_nat_mult)
  have "exp (real k * ln lam - lam - log_fact k)
      = exp (real k * ln lam) * exp (- lam) / exp (log_fact k)"
    by (simp add: exp_diff exp_minus divide_inverse)
  then show ?thesis
    by (simp only: p exp_log_fact poisson_pmf_def)
qed

lemma length_pmf_array [simp]: "length (pmf_array lam n) = n + 1"
  by (simp add: pmf_array_def)

lemma nth_pmf_array:
  assumes "k \<le> n"
  shows "pmf_array lam n ! k = poisson_pmf (max lam (1 / 10 ^ 9)) k"
proof -
  have "(0::real) < max lam (1 / 10 ^ 9)" by (simp add: less_max_iff_disj)
  then show ?thesis
    using assms unfolding pmf_array_def
    by (simp add: pmf_closed_form del: upt_Suc)
qed

lemma poisson_pmf_pos: "0 < lam \<Longrightarrow> 0 < poisson_pmf lam k"
  by (simp add: poisson_pmf_def)

lemma length_outer [simp]: "length (outer u v) = length u"
  by (simp add: outer_def)

lemma nth_outer_row: "i < length u \<Longrightarrow> outer u v ! i = map (\<lambda>b. u ! i * b) v"
  by (simp add: outer_def)

lemma nth_outer: "i < length u \<Longrightarrow> j < length v \<Longrightarrow> outer u v ! i ! j = u ! i * v ! j"
  by (simp add: outer_def)

lemma sum_list_upt_set: "(\<Sum>i\<leftarrow>[0..<n]. f i) = (\<Sum>i<n. (f i :: real))"
  by (simp add: interv_sum_list_conv_sum_set_nat atLeast0LessThan)

lemma sum_list_nth_sum: "sum_list xs = (\<Sum>j<length xs. (xs ! j :: real))"
  by (simp add: sum_list_sum_nth atLeast0LessThan)

lemma matrix_sum_cells: "matrix_sum m = (\<Sum>i<length m. \<Sum>j<length (m ! i). m ! i ! j)"
proof -
  have "matrix_sum m = (\<Sum>i<length m. sum_list (m ! i))"
    by (simp add: matrix_sum_def sum_list_sum_nth atLeast0LessThan)
  then show ?thesis by (simp add: sum_list_nth_sum)
qed

lemma masked_sum_cells:
  "masked_sum keep m = (\<Sum>i<length m. \<Sum>j<length (m ! i). if keep i j then m ! i ! j else 0)"
  by (simp add: masked_sum_def sum_list_upt_set)

lemma diag_sum_cells: "diag_sum m = (\<Sum>i<length m. m ! i ! i)"
  by (simp add: diag_sum_def sum_list_upt_set)

lemma row_split:
  assumes "i < (n::nat)"
  shows "(\<Sum>j<n. if j < i then a j else 0) + a i + (\<Sum>j<n. if i < j then a j else 0) = (\<Sum>j<n. (a j :: real))"
proof -
  have "a i = (\<Sum>j<n. if j = i then a j else 0)"
    using assms by simp
  then have "(\<Sum>j<n. if j < i then a j else 0) + a i + (\<Sum>j<n. if i < j then a j else 0)
      = (\<Sum>j<n. (if j < i then a j else 0) + (if j = i then a j else 0) + (if i < j then a j else 0))"
    by (simp add: sum.distrib)
  also have "\<dots> = (\<Sum>j<n. a j)"
    by (rule sum.cong) auto
  finally show ?thesis .
qed

lemma three_way_sum:
  assumes "is_square m"
  shows "masked_sum (\<lambda>i j. j < i) m + diag_sum m + masked_sum (\<lambda>i j. i < j) m = matrix_sum m"
proof -
  have len: "length (m ! i) = length m" if "i < length m" for i
    using assms that by (simp add: is_square_def list_all_length)
  have "masked_sum (\<lambda>i j. j < i) m + diag_sum m + masked_sum (\<lambda>i j. i < j) m
      = (\<Sum>i<length m. (\<Sum>j<length (m ! i). if j < i then m ! i ! j else 0) + m ! i ! i
            + (\<Sum>j<length (m ! i). if i < j then m ! i ! j else 0))"
    by (simp add: masked_sum_cells diag_sum_cells sum.distrib)
  also have "\<dots> = (\<Sum>i<length m. \<Sum>j<length (m ! i). m ! i ! j)"
    by (rule sum.cong) (simp_all add: len row_split)
  finally show ?thesis by (simp add: matrix_sum_cells)
qed

section \<open>The correction loops\<close>

lemma length_mat_set [simp]: "length (mat_set m x y v) = length m"
  by (simp add: mat_set_def)

lemma length_row_mat_set [simp]: "length (mat_set m x y v ! i) = length (m ! i)"
  by (cases "x < length m") (simp_all add: mat_set_def nth_list_update list_update_beyond)

lemma nth_mat_set:
  "x < length m \<Longrightarrow> y < length (m ! x) \<Longrightarrow>
   mat_set m x y v ! i ! j = (if i = x \<and> j = y then v else m ! i ! j)"
  by (simp add: mat_set_def nth_list_update)

lemma length_tau_cell [simp]: "length (tau_cell lh la rho m x y) = length m"
  by (simp add: tau_cell_def)

lemma length_row_tau_cell [simp]: "length (tau_cell lh la rho m x y ! i) = length (m ! i)"
  by (simp add: tau_cell_def)

lemma nth_tau_cell:
  "x < length m \<Longrightarrow> y < length (m ! x) \<Longrightarrow>
   tau_cell lh la rho m x y ! i ! j =
     (if i = x \<and> j = y then max 0 (m ! x ! y * tau x y lh la rho) else m ! i ! j)"
  by (simp add: tau_cell_def nth_mat_set)

lemma tau_loops_0:
  "tau_loops lh la 0 rho m = tau_cell lh la rho m 0 0"
  by (simp add: tau_loops_def)

lemma upt_2: "[0..<2] = [0, Suc 0]"
  by (simp add: upt_rec numeral_2_eq_2)

lemma tau_loops_Suc:
  "tau_loops lh la (Suc n) rho m =
     tau_cell lh la rho (tau_cell lh la rho (tau_cell lh la rho (tau_cell lh la rho m 0 0) 0 1) 1 0) 1 1"
  by (simp add: tau_loops_def upt_2)

lemma length_tau_loops [simp]: "length (tau_loops lh la n rho m) = length m"
  by (cases n) (simp_all add: tau_loops_0 tau_loops_Suc)

lemma length_row_tau_loops [simp]: "length (tau_loops lh la n rho m ! i) = length (m ! i)"
  by (cases n) (simp_all add: tau_loops_0 tau_loops_Suc)

lemma nth_tau_loops:
  assumes "length m = n + 1" "\<And>i. i \<le> n \<Longrightarrow> length (m ! i) = n + 1" "i \<le> n" "j \<le> n"
  shows "tau_loops lh la n rho m ! i ! j =
     (if i \<le> 1 \<and> j \<le> 1 then max 0 (m ! i ! j * tau i j lh la rho) else m ! i ! j)"
proof (cases n)
  case 0
  then show ?thesis using assms by (simp add: tau_loops_0 nth_tau_cell)
next
  case (Suc k)
  have l0: "length (m ! 0) = n + 1" and l1: "length (m ! 1) = n + 1"
    using assms(2) [of 0] assms(2) [of 1] Suc by simp_all
  show ?thesis
    unfolding Suc tau_loops_Suc
    using assms(1) l0 l1 Suc
    by (auto simp: nth_tau_cell)
qed

section \<open>The corrected matrix and its specification\<close>

lemma floor_pos: "(0::real) < max lam (1 / 10 ^ 9)"
  by (simp add: less_max_iff_disj)

lemma raw_dims:
  "length (outer (pmf_array lh n) (pmf_array la n)) = n + 1"
  "i \<le> n \<Longrightarrow> length (outer (pmf_array lh n) (pmf_array la n) ! i) = n + 1"
  by (simp_all add: nth_outer_row)

lemma raw_cell:
  "i \<le> n \<Longrightarrow> j \<le> n \<Longrightarrow>
   outer (pmf_array lh n) (pmf_array la n) ! i ! j = spec_raw_cell lh la i j"
  by (simp add: nth_outer nth_pmf_array spec_raw_cell_def)

lemma spec_raw_cell_pos: "0 < spec_raw_cell lh la i j"
  by (simp add: spec_raw_cell_def poisson_pmf_pos floor_pos)

lemma tau_spec_factor: "tau i j lh la rho = spec_factor lh la rho i j"
  by (simp add: tau_def spec_factor_def)

lemma corrected_dims:
  "length (tau_loops lh la n rho (outer (pmf_array lh n) (pmf_array la n))) = n + 1"
  "i \<le> n \<Longrightarrow> length (tau_loops lh la n rho (outer (pmf_array lh n) (pmf_array la n)) ! i) = n + 1"
  by (simp_all add: raw_dims)

lemma corrected_cell:
  assumes "i \<le> n" "j \<le> n"
  shows "tau_loops lh la n rho (outer (pmf_array lh n) (pmf_array la n)) ! i ! j
           = spec_corrected_cell lh la rho i j"
proof -
  have "tau_loops lh la n rho (outer (pmf_array lh n) (pmf_array la n)) ! i ! j =
     (if i \<le> 1 \<and> j \<le> 1
      then max 0 (outer (pmf_array lh n) (pmf_array la n) ! i ! j * tau i j lh la rho)
      else outer (pmf_array lh n) (pmf_array la n) ! i ! j)"
    using assms by (intro nth_tau_loops) (simp_all add: raw_dims)
  then show ?thesis
    using assms by (simp add: raw_cell tau_spec_factor spec_corrected_cell_def)
qed

lemma spec_corrected_cell_nonneg: "0 \<le> spec_corrected_cell lh la rho i j"
  using spec_raw_cell_pos [of lh la i j] by (simp add: spec_corrected_cell_def less_imp_le)

lemma matrix_sum_square_cells:
  assumes "length m = n + 1" "\<And>i. i \<le> n \<Longrightarrow> length (m ! i) = n + 1"
  shows "matrix_sum m = (\<Sum>i\<le>n. \<Sum>j\<le>n. m ! i ! j)"
proof -
  have "matrix_sum m = (\<Sum>i<Suc n. \<Sum>j<length (m ! i). m ! i ! j)"
    using assms(1) by (simp add: matrix_sum_cells)
  also have "\<dots> = (\<Sum>i<Suc n. \<Sum>j<Suc n. m ! i ! j)"
    by (rule sum.cong) (simp_all add: assms(2))
  finally show ?thesis by (simp add: lessThan_Suc_atMost)
qed

lemma corrected_total:
  "matrix_sum (tau_loops lh la n rho (outer (pmf_array lh n) (pmf_array la n))) = spec_total lh la n rho"
proof -
  have "matrix_sum (tau_loops lh la n rho (outer (pmf_array lh n) (pmf_array la n)))
      = (\<Sum>i\<le>n. \<Sum>j\<le>n. tau_loops lh la n rho (outer (pmf_array lh n) (pmf_array la n)) ! i ! j)"
    by (rule matrix_sum_square_cells) (simp_all add: raw_dims)
  also have "\<dots> = (\<Sum>i\<le>n. \<Sum>j\<le>n. spec_corrected_cell lh la rho i j)"
    by (intro sum.cong refl) (simp add: corrected_cell)
  finally show ?thesis by (simp add: spec_total_def)
qed

lemma spec_total_nonneg: "0 \<le> spec_total lh la n rho"
  unfolding spec_total_def by (intro sum_nonneg spec_corrected_cell_nonneg)

lemma build_dc_matrix_eq:
  "build_dc_matrix lh la n rho =
     (if spec_total lh la n rho = 0
      then tau_loops lh la n rho (outer (pmf_array lh n) (pmf_array la n))
      else map (map (\<lambda>v. v / spec_total lh la n rho))
             (tau_loops lh la n rho (outer (pmf_array lh n) (pmf_array la n))))"
  using spec_total_nonneg [of lh la n rho]
  by (auto simp: build_dc_matrix_def Let_def corrected_total)

lemma build_dc_matrix_dims:
  "length (build_dc_matrix lh la n rho) = n + 1"
  "i \<le> n \<Longrightarrow> length (build_dc_matrix lh la n rho ! i) = n + 1"
  by (simp_all add: build_dc_matrix_eq raw_dims)

lemma build_dc_matrix_cell:
  "i \<le> n \<Longrightarrow> j \<le> n \<Longrightarrow> build_dc_matrix lh la n rho ! i ! j = spec_dc_cell lh la n rho i j"
  by (simp add: build_dc_matrix_eq spec_dc_cell_def corrected_cell raw_dims)

text \<open>
  Claim C3.  For every pair of rates and every \<open>rho\<close> the matrix built by
  \<open>build_dc_matrix\<close> has \<open>max_goals + 1\<close> rows and columns, and each cell is the cell of
  the specification: the raw independent-Poisson mass, multiplied on the cells (0,0),
  (0,1), (1,0), (1,1) by \<open>1 - lam_h * lam_a * rho\<close>, \<open>1 + lam_h * rho\<close>,
  \<open>1 + lam_a * rho\<close>, \<open>1 - rho\<close> and floored at 0 there, unchanged elsewhere, and then
  divided by the total of all corrected cells unless that total is 0.
\<close>

theorem build_dc_matrix_refines_spec:
  "length (build_dc_matrix lh la n rho) = n + 1
   \<and> (\<forall>i\<le>n. length (build_dc_matrix lh la n rho ! i) = n + 1
        \<and> (\<forall>j\<le>n. build_dc_matrix lh la n rho ! i ! j = spec_dc_cell lh la n rho i j))"
  by (simp add: build_dc_matrix_dims build_dc_matrix_cell)

theorem build_dc_matrix_refines_spec_witness:
  "length (build_dc_matrix (3 / 2) (23 / 20) 10 (- (13 / 100))) = 11
   \<and> build_dc_matrix (3 / 2) (23 / 20) 10 (- (13 / 100)) ! 0 ! 0
        = spec_dc_cell (3 / 2) (23 / 20) 10 (- (13 / 100)) 0 0
   \<and> build_dc_matrix (3 / 2) (23 / 20) 10 (- (13 / 100)) ! 2 ! 1
        = spec_dc_cell (3 / 2) (23 / 20) 10 (- (13 / 100)) 2 1"
  using build_dc_matrix_refines_spec [of "3 / 2" "23 / 20" 10 "- (13 / 100)"]
  by simp

section \<open>The corrected matrix is a distribution\<close>

lemma sum_list_divide: "(\<Sum>v\<leftarrow>xs. v / t) = sum_list xs / (t::real)"
  by (induction xs) (simp_all add: add_divide_distrib)

lemma matrix_sum_divide: "matrix_sum (map (map (\<lambda>v. v / t)) m) = matrix_sum m / t"
  by (induction m) (simp_all add: matrix_sum_def sum_list_divide add_divide_distrib)

lemma spec_total_pos:
  assumes "0 \<le> lh" "0 \<le> la" "rho \<le> 0"
  shows "0 < spec_total lh la n rho"
proof -
  have "lh * la * rho \<le> 0"
    using assms by (simp add: mult_nonneg_nonpos)
  then have f: "0 < spec_factor lh la rho 0 0" by (simp add: spec_factor_def)
  have c: "0 < spec_corrected_cell lh la rho 0 0"
    using f spec_raw_cell_pos [of lh la 0 0] by (simp add: spec_corrected_cell_def)
  have "spec_corrected_cell lh la rho 0 0 \<le> (\<Sum>j\<le>n. spec_corrected_cell lh la rho 0 j)"
    by (rule member_le_sum) (simp_all add: spec_corrected_cell_nonneg)
  also have "\<dots> \<le> (\<Sum>i\<le>n. \<Sum>j\<le>n. spec_corrected_cell lh la rho i j)"
    by (rule member_le_sum [of 0 _ "\<lambda>i. \<Sum>j\<le>n. spec_corrected_cell lh la rho i j"])
      (simp_all add: sum_nonneg spec_corrected_cell_nonneg)
  finally show ?thesis using c by (simp add: spec_total_def)
qed

lemma build_dc_matrix_sum:
  assumes "0 \<le> lh" "0 \<le> la" "rho \<le> 0"
  shows "matrix_sum (build_dc_matrix lh la n rho) = 1"
  using spec_total_pos [OF assms, of n]
  by (simp add: build_dc_matrix_eq matrix_sum_divide corrected_total)

lemma spec_dc_cell_nonneg: "0 \<le> spec_dc_cell lh la n rho i j"
  by (simp add: spec_dc_cell_def spec_corrected_cell_nonneg spec_total_nonneg)

lemma build_dc_matrix_nonneg:
  "list_all (list_all (\<lambda>v. 0 \<le> v)) (build_dc_matrix lh la n rho)"
  unfolding list_all_length
proof (intro allI impI)
  fix i j
  assume i: "i < length (build_dc_matrix lh la n rho)"
  then have i': "i \<le> n" by (simp add: build_dc_matrix_dims)
  assume "j < length (build_dc_matrix lh la n rho ! i)"
  then have "j \<le> n" using i' by (simp add: build_dc_matrix_dims)
  then show "0 \<le> build_dc_matrix lh la n rho ! i ! j"
    using i' by (simp add: build_dc_matrix_cell spec_dc_cell_nonneg)
qed

lemma build_dc_matrix_square:
  "build_dc_matrix lh la n rho \<noteq> [] \<and> is_square (build_dc_matrix lh la n rho)"
proof -
  have "length (build_dc_matrix lh la n rho) \<noteq> 0" by (simp add: build_dc_matrix_dims)
  moreover have "is_square (build_dc_matrix lh la n rho)"
    by (simp add: is_square_def list_all_length build_dc_matrix_dims)
  ultimately show ?thesis by auto
qed

text \<open>
  Claim C2.  For rates in \<open>[0.3, 6.0]\<close> and \<open>rho\<close> in \<open>[-0.5, 0]\<close> (and every
  \<open>max_goals\<close>) all entries of the matrix returned by \<open>build_dc_matrix\<close> are
  non-negative and they sum to 1: exactly in real arithmetic, hence within \<open>1e-6\<close>.
\<close>

theorem build_dc_matrix_distribution:
  assumes "3 / 10 \<le> lh" "lh \<le> 6" "3 / 10 \<le> la" "la \<le> 6" "- (1 / 2) \<le> rho" "rho \<le> 0"
  shows "matrix_sum (build_dc_matrix lh la n rho) = 1
     \<and> \<bar>matrix_sum (build_dc_matrix lh la n rho) - 1\<bar> \<le> 1 / 10 ^ 6
     \<and> (\<forall>row \<in> set (build_dc_matrix lh la n rho). \<forall>v \<in> set row. 0 \<le> v)"
proof -
  have "matrix_sum (build_dc_matrix lh la n rho) = 1"
    using assms by (intro build_dc_matrix_sum) simp_all
  moreover have "\<forall>row \<in> set (build_dc_matrix lh la n rho). \<forall>v \<in> set row. 0 \<le> v"
    using build_dc_matrix_nonneg [of lh la n rho] by (simp add: list_all_iff)
  ultimately show ?thesis by simp
qed

theorem build_dc_matrix_distribution_witness:
  "matrix_sum (build_dc_matrix (3 / 2) (23 / 20) 10 (- (13 / 100))) = 1
   \<and> list_all (list_all (\<lambda>v. 0 \<le> v)) (build_dc_matrix (3 / 2) (23 / 20) 10 (- (13 / 100)))"
  using build_dc_matrix_distribution [of "3 / 2" "23 / 20" "- (13 / 100)" 10]
  by (simp add: list_all_iff)

section \<open>Truncated Poisson mass\<close>

lemma poisson_partial_sum_less_1:
  assumes "0 < lam"
  shows "(\<Sum>k\<le>n. poisson_pmf lam k) < 1"
proof -
  have s: "summable (\<lambda>k. lam ^ k /\<^sub>R fact k)" by (rule summable_exp_generic)
  have "(\<Sum>k<Suc n. lam ^ k /\<^sub>R fact k) < (\<Sum>k. lam ^ k /\<^sub>R fact k)"
    using assms by (intro sum_less_suminf [OF s]) simp
  then have "(\<Sum>k\<le>n. lam ^ k / fact k) < exp lam"
    by (simp add: exp_def lessThan_Suc_atMost divide_inverse mult.commute)
  then have "(\<Sum>k\<le>n. lam ^ k / fact k) * exp (- lam) < exp lam * exp (- lam)"
    by (simp add: mult_strict_right_mono)
  moreover have "(\<Sum>k\<le>n. poisson_pmf lam k) = (\<Sum>k\<le>n. lam ^ k / fact k) * exp (- lam)"
    by (simp add: poisson_pmf_def sum_distrib_right)
  moreover have "exp lam * exp (- lam) = 1"
    by (simp add: exp_minus)
  ultimately show ?thesis by simp
qed

section \<open>The correction at rho = 0\<close>

lemma raw_total:
  "matrix_sum (outer (pmf_array lh n) (pmf_array la n)) =
     (\<Sum>i\<le>n. poisson_pmf (max lh (1 / 10 ^ 9)) i) * (\<Sum>j\<le>n. poisson_pmf (max la (1 / 10 ^ 9)) j)"
proof -
  have "matrix_sum (outer (pmf_array lh n) (pmf_array la n))
      = (\<Sum>i\<le>n. \<Sum>j\<le>n. outer (pmf_array lh n) (pmf_array la n) ! i ! j)"
    by (rule matrix_sum_square_cells) (simp_all add: raw_dims)
  also have "\<dots> = (\<Sum>i\<le>n. \<Sum>j\<le>n. poisson_pmf (max lh (1 / 10 ^ 9)) i * poisson_pmf (max la (1 / 10 ^ 9)) j)"
    by (intro sum.cong refl) (simp add: raw_cell spec_raw_cell_def)
  finally show ?thesis by (simp add: sum_product)
qed

lemma poisson_partial_sum_pos: "0 < lam \<Longrightarrow> 0 < (\<Sum>k\<le>n. poisson_pmf lam k)"
  by (intro sum_pos) (simp_all add: poisson_pmf_pos)

lemma raw_total_range:
  "0 < matrix_sum (outer (pmf_array lh n) (pmf_array la n))
   \<and> matrix_sum (outer (pmf_array lh n) (pmf_array la n)) < 1"
proof -
  let ?a = "\<Sum>i\<le>n. poisson_pmf (max lh (1 / 10 ^ 9)) i"
  let ?b = "\<Sum>j\<le>n. poisson_pmf (max la (1 / 10 ^ 9)) j"
  have a: "0 < ?a" "?a < 1"
    using poisson_partial_sum_pos [OF floor_pos] poisson_partial_sum_less_1 [OF floor_pos] by blast+
  have b: "0 < ?b" "?b < 1"
    using poisson_partial_sum_pos [OF floor_pos] poisson_partial_sum_less_1 [OF floor_pos] by blast+
  have "?a * ?b < 1 * 1"
    using a b by (intro mult_strict_mono) simp_all
  moreover have "0 < ?a * ?b" using a b by simp
  ultimately show ?thesis by (simp add: raw_total)
qed

lemma spec_corrected_cell_rho_zero: "spec_corrected_cell lh la 0 i j = spec_raw_cell lh la i j"
  using spec_raw_cell_pos [of lh la i j]
  by (simp add: spec_corrected_cell_def spec_factor_def less_imp_le)

lemma tau_loops_rho_zero:
  "tau_loops lh la n 0 (outer (pmf_array lh n) (pmf_array la n)) = outer (pmf_array lh n) (pmf_array la n)"
proof (rule nth_equalityI)
  show "length (tau_loops lh la n 0 (outer (pmf_array lh n) (pmf_array la n)))
      = length (outer (pmf_array lh n) (pmf_array la n))"
    by simp
next
  fix i
  assume "i < length (tau_loops lh la n 0 (outer (pmf_array lh n) (pmf_array la n)))"
  then have i: "i \<le> n" by (simp add: raw_dims)
  show "tau_loops lh la n 0 (outer (pmf_array lh n) (pmf_array la n)) ! i
      = outer (pmf_array lh n) (pmf_array la n) ! i"
  proof (rule nth_equalityI)
    show "length (tau_loops lh la n 0 (outer (pmf_array lh n) (pmf_array la n)) ! i)
        = length (outer (pmf_array lh n) (pmf_array la n) ! i)"
      by simp
  next
    fix j
    assume "j < length (tau_loops lh la n 0 (outer (pmf_array lh n) (pmf_array la n)) ! i)"
    then have "j \<le> n" using i by (simp add: raw_dims)
    then show "tau_loops lh la n 0 (outer (pmf_array lh n) (pmf_array la n)) ! i ! j
        = outer (pmf_array lh n) (pmf_array la n) ! i ! j"
      using i by (simp add: corrected_cell raw_cell spec_corrected_cell_rho_zero)
  qed
qed

lemma build_dc_matrix_rho_zero_eq:
  "build_dc_matrix lh la n 0 =
     map (map (\<lambda>v. v / matrix_sum (outer (pmf_array lh n) (pmf_array la n))))
       (outer (pmf_array lh n) (pmf_array la n))"
  using raw_total_range [of lh n la]
  by (simp add: build_dc_matrix_def Let_def tau_loops_rho_zero)

text \<open>
  Claim C4, as amended.  With \<open>rho = 0\<close> the correction loops leave the raw
  independent-Poisson matrix unchanged, but \<open>build_dc_matrix\<close> still divides by the total,
  and the total of the raw matrix is the truncated Poisson mass, which lies strictly
  between 0 and 1.  The returned matrix is the raw matrix with every cell divided by that
  total.
\<close>

theorem build_dc_matrix_rho_zero:
  "tau_loops lh la n 0 (outer (pmf_array lh n) (pmf_array la n))
     = outer (pmf_array lh n) (pmf_array la n)
   \<and> 0 < matrix_sum (outer (pmf_array lh n) (pmf_array la n))
   \<and> matrix_sum (outer (pmf_array lh n) (pmf_array la n)) < 1
   \<and> build_dc_matrix lh la n 0 =
       map (map (\<lambda>v. v / matrix_sum (outer (pmf_array lh n) (pmf_array la n))))
         (outer (pmf_array lh n) (pmf_array la n))"
  using tau_loops_rho_zero raw_total_range build_dc_matrix_rho_zero_eq by blast

text \<open>
  The claim as stated fails at the league-average rates with the default \<open>max_goals\<close>:
  the returned matrix differs from the raw one.
\<close>

theorem build_dc_matrix_rho_zero_renormalizes:
  "build_dc_matrix (3 / 2) (23 / 20) 10 0 \<noteq> outer (pmf_array (3 / 2) 10) (pmf_array (23 / 20) 10)"
proof
  let ?raw = "outer (pmf_array (3 / 2) 10) (pmf_array (23 / 20) 10)"
  assume e: "build_dc_matrix (3 / 2) (23 / 20) 10 0 = ?raw"
  have c: "0 < ?raw ! 0 ! 0"
    by (simp add: raw_cell spec_raw_cell_pos)
  have t: "0 < matrix_sum ?raw" "matrix_sum ?raw < 1"
    using raw_total_range by blast+
  have "build_dc_matrix (3 / 2) (23 / 20) 10 0 ! 0 ! 0 = ?raw ! 0 ! 0 / matrix_sum ?raw"
    by (simp add: build_dc_matrix_rho_zero_eq raw_dims)
  with e have "?raw ! 0 ! 0 = ?raw ! 0 ! 0 / matrix_sum ?raw" by simp
  then have "?raw ! 0 ! 0 * matrix_sum ?raw = ?raw ! 0 ! 0"
    using t by (simp add: field_simps)
  then have "matrix_sum ?raw = 1" using c by simp
  then show False using t by simp
qed

section \<open>Sums of the rounded triples\<close>

lemma py_round_4_int: "\<exists>k. py_round x 4 = real_of_int k / 10000 \<and> \<bar>real_of_int k - x * 10000\<bar> \<le> 1 / 2"
proof -
  have "\<bar>of_int (round_half_even (x * 10 ^ 4)) - x * 10 ^ 4\<bar> \<le> 1 / 2"
    by (rule round_half_even_error)
  then show ?thesis
    by (intro exI [of _ "round_half_even (x * 10 ^ 4)"]) (simp add: py_round_def)
qed

lemma rounded_triple_sum:
  assumes "a + b + c = 1"
  shows "\<bar>py_round a 4 + py_round b 4 + py_round c 4 - 1\<bar> \<le> 1 / 10 ^ 4"
proof -
  obtain ka where ka: "py_round a 4 = real_of_int ka / 10000" "\<bar>real_of_int ka - a * 10000\<bar> \<le> 1 / 2"
    using py_round_4_int by blast
  obtain kb where kb: "py_round b 4 = real_of_int kb / 10000" "\<bar>real_of_int kb - b * 10000\<bar> \<le> 1 / 2"
    using py_round_4_int by blast
  obtain kc where kc: "py_round c 4 = real_of_int kc / 10000" "\<bar>real_of_int kc - c * 10000\<bar> \<le> 1 / 2"
    using py_round_4_int by blast
  have "\<bar>real_of_int ka + real_of_int kb + real_of_int kc - 10000\<bar> \<le> 3 / 2"
    using ka(2) kb(2) kc(2) assms by linarith
  then have "\<bar>ka + kb + kc - 10000\<bar> \<le> 1" by linarith
  then have "\<bar>real_of_int ka + real_of_int kb + real_of_int kc - 10000\<bar> \<le> 1" by linarith
  then have "\<bar>real_of_int ka / 10000 + real_of_int kb / 10000 + real_of_int kc / 10000 - 1\<bar> \<le> 1 / 10000"
    by linarith
  then show ?thesis by (simp only: ka(1) kb(1) kc(1)) simp
qed

lemma normalized_sum: "s \<noteq> 0 \<Longrightarrow> s = x + y + z \<Longrightarrow> x / s + y / s + z / (s::real) = 1"
  by (simp add: add_divide_distrib [symmetric])

lemma outcome_triple_sum:
  assumes "masked_sum (\<lambda>i j. j < i) m + diag_sum m + masked_sum (\<lambda>i j. i < j) m \<noteq> 0"
  shows "\<exists>h d a. outcome_triple m = Inr (h, d, a) \<and> \<bar>h + d + a - 1\<bar> \<le> 1 / 10 ^ 4"
proof -
  let ?s = "masked_sum (\<lambda>i j. j < i) m + diag_sum m + masked_sum (\<lambda>i j. i < j) m"
  have "masked_sum (\<lambda>i j. j < i) m / ?s + diag_sum m / ?s + masked_sum (\<lambda>i j. i < j) m / ?s = 1"
    using assms by (intro normalized_sum) simp_all
  then have "\<bar>py_round (masked_sum (\<lambda>i j. j < i) m / ?s) 4 + py_round (diag_sum m / ?s) 4
      + py_round (masked_sum (\<lambda>i j. i < j) m / ?s) 4 - 1\<bar> \<le> 1 / 10 ^ 4"
    by (rule rounded_triple_sum)
  moreover have "py_or ?s 1 = ?s" using assms by (simp add: py_or_def)
  ultimately show ?thesis by (simp add: outcome_triple_Inr)
qed

lemma apply_dc_correction_sum:
  assumes "m \<noteq> []" "is_square m" "matrix_sum m \<noteq> 0"
  shows "\<exists>q. apply_dc_correction p m = Inr q
     \<and> \<bar>home_win q + draw q + away_win q - 1\<bar> \<le> 1 / 10 ^ 4"
proof -
  have "masked_sum (\<lambda>i j. j < i) m + diag_sum m + masked_sum (\<lambda>i j. i < j) m \<noteq> 0"
    using assms by (simp add: three_way_sum)
  then obtain h d a where t: "outcome_triple m = Inr (h, d, a)" "\<bar>h + d + a - 1\<bar> \<le> 1 / 10 ^ 4"
    using outcome_triple_sum by blast
  then show ?thesis using assms by (simp add: apply_dc_correction_def)
qed

lemma ensemble_sum:
  assumes "(7 / 10 * home_win p + 3 / 10 * mh) + (7 / 10 * draw p + 3 / 10 * md)
       + (7 / 10 * away_win p + 3 / 10 * ma) \<noteq> 0"
  shows "\<exists>f. ensemble p (Some \<lparr>ml_away_win = Some ma, ml_draw = Some md, ml_home_win = Some mh\<rparr>) = Inr f
     \<and> \<bar>fp_home_win f + fp_draw f + fp_away_win f - 1\<bar> \<le> 1 / 10 ^ 4"
proof -
  let ?h = "7 / 10 * home_win p + 3 / 10 * mh"
  let ?d = "7 / 10 * draw p + 3 / 10 * md"
  let ?a = "7 / 10 * away_win p + 3 / 10 * ma"
  have "?h / (?h + ?d + ?a) + ?d / (?h + ?d + ?a) + ?a / (?h + ?d + ?a) = 1"
    using assms by (intro normalized_sum) simp_all
  then have "\<bar>py_round (?h / (?h + ?d + ?a)) 4 + py_round (?d / (?h + ?d + ?a)) 4
      + py_round (?a / (?h + ?d + ?a)) 4 - 1\<bar> \<le> 1 / 10 ^ 4"
    by (rule rounded_triple_sum)
  moreover have "py_or (?h + ?d + ?a) 1 = ?h + ?d + ?a" using assms by (simp add: py_or_def)
  ultimately show ?thesis by (simp add: ensemble_Some dict_get_def)
qed

lemma calculate_poisson_rates_nonneg:
  "\<exists>r. calculate_poisson home away weather h2h nf = Inr r \<and> 0 \<le> lambda_h r \<and> 0 \<le> lambda_a r"
proof -
  let ?c = "clipped_rates home away weather nf"
  let ?n = "h2h_nudge h2h ?c"
  obtain r where r: "calculate_poisson home away weather h2h nf = Inr r"
    "lambda_h r = py_round (fst ?n) 2" "lambda_a r = py_round (snd ?n) 2"
    using calculate_poisson_Inr by blast
  have c: "3 / 10 \<le> fst ?c" "fst ?c \<le> 6" "3 / 10 \<le> snd ?c" "snd ?c \<le> 6"
    using clipped_rates_range by blast+
  have n: "264 / 1000 \<le> fst ?n" "fst ?n \<le> 672 / 100" "282 / 1000 \<le> snd ?n" "snd ?n \<le> 636 / 100"
    using h2h_nudge_range [OF c] by blast+
  have "26 / 100 \<le> lambda_h r \<and> lambda_h r \<le> 672 / 100"
    unfolding r using py_round_between [OF py_round_26 py_round_672 n(1) n(2)] .
  moreover have "28 / 100 \<le> lambda_a r \<and> lambda_a r \<le> 636 / 100"
    unfolding r using py_round_between [OF py_round_28 py_round_636 n(3) n(4)] .
  ultimately show ?thesis using r(1) by auto
qed

lemma analyze_blend_parts:
  "\<exists>a. analyze_blend mp feats q = Inr a \<and> poisson_out a = q
     \<and> ensemble q (if is_trained mp then predict mp feats else None) = Inr (final_probs a)
     \<and> ml_used a = ((if is_trained mp then predict mp feats else None) \<noteq> None)"
proof -
  obtain f where "ensemble q (if is_trained mp then predict mp feats else None) = Inr f"
    using ensemble_returns by blast
  then show ?thesis by (simp add: analyze_blend_def Let_def)
qed

lemma analyze_core_sum:
  "\<exists>a. analyze_core mp feats home away weather h2h nf = Inr a
     \<and> \<bar>home_win (poisson_out a) + draw (poisson_out a) + away_win (poisson_out a) - 1\<bar> \<le> 1 / 10 ^ 4
     \<and> (\<not> ml_used a \<longrightarrow>
          fp_home_win (final_probs a) = home_win (poisson_out a)
        \<and> fp_draw (final_probs a) = draw (poisson_out a)
        \<and> fp_away_win (final_probs a) = away_win (poisson_out a))"
proof -
  obtain r where r: "calculate_poisson home away weather h2h nf = Inr r"
    "0 \<le> lambda_h r" "0 \<le> lambda_a r"
    using calculate_poisson_rates_nonneg by blast
  let ?dc = "build_dc_matrix (lambda_h r) (lambda_a r) 10 (- (13 / 100))"
  have s: "matrix_sum ?dc = 1"
    using r(2,3) by (intro build_dc_matrix_sum) simp_all
  have sq: "?dc \<noteq> []" "is_square ?dc"
    using build_dc_matrix_square by blast+
  obtain q where q: "apply_dc_correction r ?dc = Inr q"
    "\<bar>home_win q + draw q + away_win q - 1\<bar> \<le> 1 / 10 ^ 4"
    using apply_dc_correction_sum [OF sq, of r] s by auto
  obtain a where a: "analyze_blend mp feats q = Inr a" "poisson_out a = q"
    "ensemble q (if is_trained mp then predict mp feats else None) = Inr (final_probs a)"
    "ml_used a = ((if is_trained mp then predict mp feats else None) \<noteq> None)"
    using analyze_blend_parts by blast
  have "fp_home_win (final_probs a) = home_win q \<and> fp_draw (final_probs a) = draw q
      \<and> fp_away_win (final_probs a) = away_win q" if "\<not> ml_used a"
  proof -
    from that a(4) have "(if is_trained mp then predict mp feats else None) = None" by simp
    with a(3) have "final_probs a = \<lparr>fp_home_win = home_win q, fp_draw = draw q,
        fp_away_win = away_win q, source = ''poisson+dc''\<rparr>"
      by (simp add: ensemble_None)
    then show ?thesis by simp
  qed
  then show ?thesis
    using r(1) q a(1,2) by (intro exI [of _ a]) (simp add: analyze_core_def Let_def)
qed

text \<open>
  Claim C7, as amended.  The triples are rounded to four decimals after the
  renormalisation, so their sum is 1 within \<open>1e-4\<close>, not within \<open>1e-6\<close>.  For every
  evaluation the base triple of the corrected result sums to 1 within \<open>1e-4\<close>, and so
  does the final triple when no classifier answer is blended in.  The same bound holds
  for \<open>_apply_dc_correction\<close> on every square non-empty matrix with a non-zero total, and
  for the blended triple whenever the three blended values do not sum to 0.
\<close>

theorem rounded_triples_sum_near_one:
  "(\<exists>a. analyze_core mp feats home away weather h2h nf = Inr a
      \<and> \<bar>home_win (poisson_out a) + draw (poisson_out a) + away_win (poisson_out a) - 1\<bar> \<le> 1 / 10 ^ 4
      \<and> (\<not> ml_used a \<longrightarrow>
           \<bar>fp_home_win (final_probs a) + fp_draw (final_probs a) + fp_away_win (final_probs a) - 1\<bar>
             \<le> 1 / 10 ^ 4))
   \<and> (m \<noteq> [] \<and> is_square m \<and> matrix_sum m \<noteq> 0 \<longrightarrow>
        (\<exists>q. apply_dc_correction p m = Inr q
           \<and> \<bar>home_win q + draw q + away_win q - 1\<bar> \<le> 1 / 10 ^ 4))
   \<and> ((7 / 10 * home_win p + 3 / 10 * mh) + (7 / 10 * draw p + 3 / 10 * md)
          + (7 / 10 * away_win p + 3 / 10 * ma) \<noteq> 0 \<longrightarrow>
        (\<exists>f. ensemble p (Some \<lparr>ml_away_win = Some ma, ml_draw = Some md, ml_home_win = Some mh\<rparr>) = Inr f
           \<and> \<bar>fp_home_win f + fp_draw f + fp_away_win f - 1\<bar> \<le> 1 / 10 ^ 4))"
proof -
  obtain a where a: "analyze_core mp feats home away weather h2h nf = Inr a"
    "\<bar>home_win (poisson_out a) + draw (poisson_out a) + away_win (poisson_out a) - 1\<bar> \<le> 1 / 10 ^ 4"
    "\<not> ml_used a \<longrightarrow>
          fp_home_win (final_probs a) = home_win (poisson_out a)
        \<and> fp_draw (final_probs a) = draw (poisson_out a)
        \<and> fp_away_win (final_probs a) = away_win (poisson_out a)"
    using analyze_core_sum by blast
  have 1: "\<exists>a. analyze_core mp feats home away weather h2h nf = Inr a
      \<and> \<bar>home_win (poisson_out a) + draw (poisson_out a) + away_win (poisson_out a) - 1\<bar> \<le> 1 / 10 ^ 4
      \<and> (\<not> ml_used a \<longrightarrow>
           \<bar>fp_home_win (final_probs a) + fp_draw (final_probs a) + fp_away_win (final_probs a) - 1\<bar>
             \<le> 1 / 10 ^ 4)"
    using a by (intro exI [of _ a]) auto
  show ?thesis
    using 1 apply_dc_correction_sum ensemble_sum by (intro conjI impI) blast+
qed

text \<open>
  The claim as stated fails: a matrix whose three regions hold one third each gives the
  base triple (0.3333, 0.3333, 0.3333), and the blend of the example gives the same final
  triple; both sum to 0.9999.
\<close>

lemma ex_thirds_triple:
  "apply_dc_correction ex_poisson ex_thirds =
     Inr (ex_poisson\<lparr>home_win := 3333 / 10000, draw := 3333 / 10000, away_win := 3333 / 10000,
            both_score := py_round (calc_both_score ex_thirds) 4,
            over_1_5 := py_round (calc_over ex_thirds (3 / 2)) 4,
            over_2_5 := py_round (calc_over ex_thirds (5 / 2)) 4,
            over_3_5 := py_round (calc_over ex_thirds (7 / 2)) 4\<rparr>)"
proof -
  have t: "outcome_triple ex_thirds = Inr (3333 / 10000, 3333 / 10000, 3333 / 10000)"
    by (simp add: outcome_triple_Inr ex_thirds_def masked_sum_def diag_sum_def py_or_def
        py_round_def round_half_even_def Let_def)
  have s: "ex_thirds \<noteq> []" "is_square ex_thirds" by (simp_all add: ex_thirds_def is_square_def)
  show ?thesis using s by (simp add: apply_dc_correction_def t)
qed

theorem rounded_triple_sums_9999:
  "(case apply_dc_correction ex_poisson ex_thirds of
      Inl e \<Rightarrow> False
    | Inr q \<Rightarrow> home_win q + draw q + away_win q = 9999 / 10000
        \<and> \<not> \<bar>home_win q + draw q + away_win q - 1\<bar> \<le> 1 / 10 ^ 6)
   \<and> (case ensemble ex_poisson (Some ex_ml_third) of
      Inl e \<Rightarrow> False
    | Inr f \<Rightarrow> fp_home_win f + fp_draw f + fp_away_win f = 9999 / 10000
        \<and> \<not> \<bar>fp_home_win f + fp_draw f + fp_away_win f - 1\<bar> \<le> 1 / 10 ^ 6)"
  by (simp add: ex_thirds_triple ex_ensemble_third)

theorem rounded_triples_sum_near_one_witness:
  "(\<exists>q. apply_dc_correction ex_poisson ex_thirds = Inr q
      \<and> \<bar>home_win q + draw q + away_win q - 1\<bar> \<le> 1 / 10 ^ 4)
   \<and> (\<exists>f. ensemble ex_poisson (Some \<lparr>ml_away_win = Some (41111 / 100000),
              ml_draw = Some (41111 / 100000), ml_home_win = Some (17778 / 100000)\<rparr>) = Inr f
      \<and> \<bar>fp_home_win f + fp_draw f + fp_away_win f - 1\<bar> \<le> 1 / 10 ^ 4)"
proof -
  have s: "ex_thirds \<noteq> [] \<and> is_square ex_thirds \<and> matrix_sum ex_thirds \<noteq> 0"
    by (simp add: ex_thirds_def is_square_def matrix_sum_def)
  have b: "(7 / 10 * home_win ex_poisson + 3 / 10 * (17778 / 100000))
      + (7 / 10 * draw ex_poisson + 3 / 10 * (41111 / 100000))
      + (7 / 10 * away_win ex_poisson + 3 / 10 * (41111 / 100000)) \<noteq> 0"
    by (simp add: ex_poisson_def)
  show ?thesis
    using rounded_triples_sum_near_one [of ex_predictor "[]" ex_home ex_away ex_weather ex_h2h False
        ex_thirds ex_poisson "17778 / 100000" "41111 / 100000" "41111 / 100000"] s b
    by blast
qed

section \<open>Classifier failures\<close>

lemma predict_untrained: "\<not> is_trained mp \<Longrightarrow> predict mp feats = None"
  by (simp add: predict_def)

lemma predict_no_bundle: "bundle_dict mp = None \<Longrightarrow> predict mp feats = None"
  by (simp add: predict_def)

lemma predict_try_fails: "bundle_dict mp = Some b \<Longrightarrow> predict_try b feats = Inl e \<Longrightarrow> predict mp feats = None"
  by (simp add: predict_def)

lemma predict_try_no_model: "model b = None \<Longrightarrow> \<exists>e. predict_try b feats = Inl e"
  by (simp add: predict_try_def model_probs_def split: sum.splits)

lemma predict_try_scaler_raises:
  "scaler b = Some sc \<Longrightarrow> transform sc [feats] = Inl e \<Longrightarrow> \<exists>e. predict_try b feats = Inl e"
  by (simp add: predict_try_def scale_features_def)

lemma predict_try_model_raises:
  "model b = Some mdl \<Longrightarrow> scale_features b feats = Inr X \<Longrightarrow> predict_proba mdl X = Inl e \<Longrightarrow>
   \<exists>e. predict_try b feats = Inl e"
  by (simp add: predict_try_def model_probs_def)

lemma class_prob_short:
  "c \<in> set classes \<Longrightarrow> length probs \<le> list_index classes c \<Longrightarrow> class_prob probs classes c = Inl IndexError"
  by (simp add: class_prob_def py_index_def)

lemma probs_dict_short:
  assumes "list_ex (\<lambda>c. c \<in> set classes \<and> length probs \<le> list_index classes c) [0, 1, 2]"
  shows "\<exists>e. probs_dict probs classes = Inl e"
  using assms by (auto simp: probs_dict_def class_prob_short split: sum.splits)

lemma predict_try_malformed:
  assumes "model b = Some mdl" "scale_features b feats = Inr X" "predict_proba mdl X = Inr out"
    "malformed_output (model_classes b) out"
  shows "\<exists>e. predict_try b feats = Inl e"
proof (cases "out = []")
  case True
  then show ?thesis using assms by (simp add: predict_try_def model_probs_def py_index_def)
next
  case False
  then have "model_probs b X = Inr (hd out)"
    using assms by (simp add: model_probs_def py_index_def hd_conv_nth)
  moreover have "\<exists>e. probs_dict (hd out) (model_classes b) = Inl e"
    using assms(4) False by (intro probs_dict_short) (simp add: malformed_output_def)
  ultimately show ?thesis using assms(2) by (simp add: predict_try_def)
qed

lemma analyze_blend_no_opinion:
  assumes "predict mp feats = None"
  shows "analyze_blend mp feats p =
     Inr \<lparr>poisson_out = p,
          final_probs = \<lparr>fp_home_win = home_win p, fp_draw = draw p, fp_away_win = away_win p,
                          source = ''poisson+dc''\<rparr>,
          ml_used = False, confidence = fst (confidence_level p),
          confidence_label = snd (confidence_level p)\<rparr>"
  using assms by (simp add: analyze_blend_def Let_def ensemble_None)

lemma analyze_core_reaches_blend:
  "\<exists>q. analyze_core mp feats home away weather h2h nf = analyze_blend mp feats q"
proof -
  obtain r where r: "calculate_poisson home away weather h2h nf = Inr r"
    using calculate_poisson_Inr by blast
  let ?dc = "build_dc_matrix (lambda_h r) (lambda_a r) 10 (- (13 / 100))"
  have "?dc \<noteq> []" "is_square ?dc"
    using build_dc_matrix_square by blast+
  then obtain q where "apply_dc_correction r ?dc = Inr q"
    using apply_dc_correction_returns by blast
  then show ?thesis using r by (auto simp: analyze_core_def Let_def)
qed

text \<open>
  Claim C8.  In each failure state of the classifier (not trained; no bundle; a bundle
  without a model; the scaler or the model raising; an output with no row, or with a row
  too short for the class order) \<open>predict\<close> returns \<open>None\<close> instead of raising, and the
  blend step completes with the matrix-only triple, tagged \<open>poisson+dc\<close>, and with
  \<open>ml_used\<close> false; so does the whole evaluation, from the team statistics on.
\<close>

theorem classifier_failure_is_no_opinion:
  assumes "\<not> is_trained mp
     \<or> bundle_dict mp = None
     \<or> (\<exists>b. bundle_dict mp = Some b
          \<and> (model b = None
             \<or> (\<exists>sc e. scaler b = Some sc \<and> transform sc [feats] = Inl e)
             \<or> (\<exists>mdl X e. model b = Some mdl \<and> scale_features b feats = Inr X
                   \<and> predict_proba mdl X = Inl e)
             \<or> (\<exists>mdl X out. model b = Some mdl \<and> scale_features b feats = Inr X
                   \<and> predict_proba mdl X = Inr out \<and> malformed_output (model_classes b) out)))"
  shows "predict mp feats = None
     \<and> analyze_blend mp feats p =
         Inr \<lparr>poisson_out = p,
              final_probs = \<lparr>fp_home_win = home_win p, fp_draw = draw p,
                              fp_away_win = away_win p, source = ''poisson+dc''\<rparr>,
              ml_used = False, confidence = fst (confidence_level p),
              confidence_label = snd (confidence_level p)\<rparr>
     \<and> (\<exists>q. analyze_core mp feats home away weather h2h nf =
         Inr \<lparr>poisson_out = q,
              final_probs = \<lparr>fp_home_win = home_win q, fp_draw = draw q,
                              fp_away_win = away_win q, source = ''poisson+dc''\<rparr>,
              ml_used = False, confidence = fst (confidence_level q),
              confidence_label = snd (confidence_level q)\<rparr>)"
proof -
  have n: "predict mp feats = None"
    using assms predict_untrained predict_no_bundle predict_try_fails predict_try_no_model
      predict_try_scaler_raises predict_try_model_raises predict_try_malformed
    by metis
  obtain q where "analyze_core mp feats home away weather h2h nf = analyze_blend mp feats q"
    using analyze_core_reaches_blend by blast
  then show ?thesis using n analyze_blend_no_opinion by metis
qed

theorem classifier_failure_is_no_opinion_witness:
  "predict ex_predictor_raising [] = None
   \<and> analyze_blend ex_predictor_raising [] ex_poisson =
         Inr \<lparr>poisson_out = ex_poisson,
              final_probs = \<lparr>fp_home_win = 4 / 10, fp_draw = 3 / 10,
                              fp_away_win = 3 / 10, source = ''poisson+dc''\<rparr>,
              ml_used = False, confidence = 40, confidence_label = Low\<rparr>"
proof -
  have c: "confidence_level ex_poisson = (40, Low)"
    by (simp add: ex_poisson_def confidence_level_def best_prob_def py_round_def
        round_half_even_def Let_def)
  have h: "\<not> is_trained ex_predictor_raising
     \<or> bundle_dict ex_predictor_raising = None
     \<or> (\<exists>b. bundle_dict ex_predictor_raising = Some b
          \<and> (model b = None
             \<or> (\<exists>sc e. scaler b = Some sc \<and> transform sc [[]] = Inl e)
             \<or> (\<exists>mdl X e. model b = Some mdl \<and> scale_features b [] = Inr X
                   \<and> predict_proba mdl X = Inl e)
             \<or> (\<exists>mdl X out. model b = Some mdl \<and> scale_features b [] = Inr X
                   \<and> predict_proba mdl X = Inr out \<and> malformed_output (model_classes b) out)))"
    by (simp add: ex_predictor_raising_def ex_model_raising_def scale_features_def)
  show ?thesis
    using classifier_failure_is_no_opinion [OF h, of ex_poisson]
    by (simp add: c) (simp add: ex_poisson_def)
qed

end
